theory Spec2Isabelle
  imports Main "HOL-Library.Word" "HOL-Library.Multiset"
begin

section \<open>Package code: instruction encoding\<close>

text \<open>
  Of package \<open>code\<close> the sources hold only the test \<open>TestMake\<close>. It names the
  opcodes \<open>OpConstant\<close>, \<open>OpSetLocal\<close>, \<open>OpAdd\<close> and \<open>OpClosure\<close>
  (Go constants of a byte type) and fixes what \<open>Make\<close> has to return on four inputs.
  The numeric value of an opcode is not in the sources: it is the parameter \<open>enc\<close>
  (the Go conversion \<open>byte(op)\<close>) of everything below.
\<close>

type_synonym byte = "8 word"

datatype OpCode = OpConstant | OpSetLocal | OpAdd | OpClosure

text \<open>
  Modelled from the spec: the table of operand widths of package \<open>code\<close>, which is
  not in the sources. The spec fixes the widths per opcode: a 2-byte constant-pool
  index, a 1-byte local slot, no operand for an addition, a 2-byte function index plus a
  1-byte free-variable count for closure creation.
\<close>

fun OperandWidths :: "OpCode \<Rightarrow> nat list" where
  "OperandWidths OpConstant = [2]"
| "OperandWidths OpSetLocal = [1]"
| "OperandWidths OpAdd = []"
| "OperandWidths OpClosure = [2, 1]"

text \<open>
  Modelled from the spec: the operand bytes of one operand, big-endian, at the width the
  opcode fixes. The operand is a Go \<open>int\<close>; converting it to the unsigned type of the
  width keeps its low bits (\<open>word_of_int\<close>).
\<close>

definition putOperand :: "nat \<Rightarrow> int \<Rightarrow> byte list" where
  "putOperand w operand = map (\<lambda>k. word_of_int (operand div 2 ^ (8 * k))) (rev [0..<w])"

text \<open>
  Modelled from the spec: \<open>code.Make\<close>, which is not in the sources: one opcode byte,
  then the operand bytes in big-endian order, widths fixed per opcode.
\<close>

definition Make :: "(OpCode \<Rightarrow> byte) \<Rightarrow> OpCode \<Rightarrow> int list \<Rightarrow> byte list" where
  "Make enc op operands =
     enc op # concat (map (\<lambda>(w, operand). putOperand w operand) (zip (OperandWidths op) operands))"

text \<open>
  Modelled from the spec: \<open>code.ReadUint16\<close>, which is not in the sources: the decoder
  of a 2-byte big-endian operand. Reading from a slice shorter than two bytes is an index
  out of range in Go: \<open>None\<close> here.
\<close>

fun ReadUint16 :: "byte list \<Rightarrow> 16 word option" where
  "ReadUint16 (hi # lo # rest) = Some (push_bit 8 (ucast hi) + ucast lo)"
| "ReadUint16 _ = None"

section \<open>Package vm\<close>

text \<open>
  A value of the interface type \<open>object.Object\<close> is \<open>None\<close> for Go's \<open>nil\<close> and
  \<open>Some x\<close> otherwise; the objects themselves (package \<open>object\<close>) are a type
  parameter. The stack pointer is a Go \<open>int\<close>: no operation below can take it out of
  the range \<open>-1 .. len(stack)\<close>, so it is an unbounded \<open>int\<close> here.
\<close>

type_synonym 'o Object = "'o option"

definition StackSize :: nat where
  "StackSize = 2048"

record 'o Bytecode =
  Instructions :: "byte list"
  Constants :: "'o Object list"

record 'o VM =
  instructions :: "byte list"
  constants :: "'o Object list"
  stack :: "'o Object list"
  sp :: int

text \<open>
  What a method returning \<open>error\<close> can do: return \<open>nil\<close>, return an error made by
  \<open>fmt.Errorf\<close> (its message), or not return at all because the Go runtime panics on
  an index or a slice bound out of range.
\<close>

datatype runtime_panic = IndexOutOfRange | SliceBoundsOutOfRange

datatype result = ReturnNil | ReturnError string | Panics runtime_panic

text \<open>\<open>New\<close> of package \<open>vm\<close> (package \<open>parser\<close> has a \<open>New\<close> of its own).\<close>

definition vm_New :: "'o Bytecode \<Rightarrow> 'o VM" where
  "vm_New bytecode =
     \<lparr>instructions = Instructions bytecode,
      constants = Constants bytecode,
      stack = replicate StackSize None,
      sp = -1\<rparr>"

text \<open>
  \<open>pushStack\<close>: the capacity check, then \<open>v.sp++\<close>, then the store
  \<open>v.stack[v.sp] = o\<close>, which panics when the incremented \<open>sp\<close> is not an index of
  the stack; the increment has happened by then.
\<close>

definition pushStack :: "'o VM \<Rightarrow> 'o Object \<Rightarrow> 'o VM \<times> result" where
  "pushStack v ob =
     (if sp v \<ge> int (length (stack v)) then (v, ReturnError ''Stack full'')
      else
        let v1 = v\<lparr>sp := sp v + 1\<rparr> in
        if 0 \<le> sp v1 \<and> sp v1 < int (length (stack v1))
        then (v1\<lparr>stack := (stack v1)[nat (sp v1) := ob]\<rparr>, ReturnNil)
        else (v1, Panics IndexOutOfRange))"

text \<open>
  \<open>popStack\<close> and \<open>StackTop\<close> return \<open>nil\<close> on an empty stack. The reads
  \<open>v.stack[v.sp]\<close> panic when \<open>sp\<close> is past the end of the stack: \<open>Inl\<close>.
\<close>

definition popStack :: "'o VM \<Rightarrow> runtime_panic + ('o Object \<times> 'o VM)" where
  "popStack v =
     (if sp v < 0 then Inr (None, v)
      else if sp v < int (length (stack v))
      then Inr (stack v ! nat (sp v), v\<lparr>sp := sp v - 1\<rparr>)
      else Inl IndexOutOfRange)"

definition StackTop :: "'o VM \<Rightarrow> runtime_panic + 'o Object" where
  "StackTop v =
     (if sp v < 0 then Inr None
      else if sp v < int (length (stack v)) then Inr (stack v ! nat (sp v))
      else Inl IndexOutOfRange)"

text \<open>
  \<open>Run\<close>: the loop \<open>for ip := 0; ip < len(v.instructions); ip++\<close>, from a given
  \<open>ip\<close>. The only case of the \<open>switch\<close> is \<open>code.OpConstant\<close>; the switch has no
  \<open>default\<close>, so any other byte falls through to the loop's \<open>ip++\<close>. The
  \<open>fmt.Printf\<close> of the constant index writes to standard output and is not part of
  the state modelled here.
\<close>

function Run_from :: "(OpCode \<Rightarrow> byte) \<Rightarrow> 'o VM \<Rightarrow> nat \<Rightarrow> 'o VM \<times> result" where
  "Run_from enc v ip =
     (if ip < length (instructions v) then
        if instructions v ! ip = enc OpConstant then
          (case ReadUint16 (drop (ip + 1) (instructions v)) of
             None \<Rightarrow> (v, Panics IndexOutOfRange)
           | Some index \<Rightarrow>
               if unat index < length (constants v) then
                 (case pushStack v (constants v ! unat index) of
                    (v', ReturnNil) \<Rightarrow> Run_from enc v' (ip + 2 + 1)
                  | (v', err) \<Rightarrow> (v', err))
               else (v, Panics IndexOutOfRange))
        else Run_from enc v (ip + 1)
      else (v, ReturnNil))"
  by pat_completeness auto
termination
  by (relation "measure (\<lambda>(enc, v, ip). length (instructions v) - ip)")
     (auto simp: pushStack_def Let_def split: if_splits)

declare Run_from.simps [simp del]

definition Run :: "(OpCode \<Rightarrow> byte) \<Rightarrow> 'o VM \<Rightarrow> 'o VM \<times> result" where
  "Run enc v = Run_from enc v 0"

text \<open>
  A numbering of the opcodes for the concrete examples below (the real one is not in the
  sources; every general statement holds for any numbering).
\<close>

fun sample_enc :: "OpCode \<Rightarrow> byte" where
  "sample_enc OpConstant = 0"
| "sample_enc OpSetLocal = 1"
| "sample_enc OpAdd = 2"
| "sample_enc OpClosure = 3"


text \<open>The program that is \<open>m\<close> loads of the constant of index 0.\<close>

definition constant_loads :: "(OpCode \<Rightarrow> byte) \<Rightarrow> nat \<Rightarrow> byte list" where
  "constant_loads enc m = concat (replicate m [enc OpConstant, 0, 0])"

section \<open>Package token, as the parser uses it\<close>

text \<open>
  Modelled from the spec: the declarations of package \<open>token\<close>, which is not in the
  sources: a token has a kind, its literal text and a source position (line, column).
  The field names are those the parser reads. The parser names the token types below;
  every other type of the package (the operators among them) is \<open>OTHER\<close> with its
  name. \<open>INT_T\<close> is the source's \<open>token.INT\<close>.
\<close>

datatype TokenType =
    EOF | IDENT | INT_T | STRING | TRUE | FALSE | IF | ELSE | FUNCTION | LET | RETURN
  | LBRACKET | RBRACKET | LBRACE | RBRACE | LPAREN | RPAREN
  | SEMICOLON | ASSIGN | COMMA | COLON
  | OTHER string

record Position =
  Line :: int
  Column :: int

record Token =
  Type :: TokenType
  Literal :: string
  Pos :: Position

text \<open>
  What the parser takes from outside the sources, as parameters of the model:
  the method \<open>Token.Precedence\<close>, the constant \<open>token.LOWEST_PRECEDENCE\<close> and the
  three operator lists of package \<open>token\<close>; \<open>strconv.ParseInt(s, 0, 64)\<close> of
  the Go library (\<open>None\<close> when it returns an error); and what the verb \<open>%q\<close> of
  \<open>fmt.Sprintf\<close> prints for a token type and for a string.
\<close>

record Deps =
  Precedence :: "Token \<Rightarrow> int"
  LOWEST_PRECEDENCE :: int
  GetPrefixOperators :: "TokenType list"
  GetInfixOperators :: "TokenType list"
  GetPostfixOperators :: "TokenType list"
  ParseInt :: "string \<Rightarrow> int option"
  QuoteTokenType :: "TokenType \<Rightarrow> string"
  QuoteString :: "string \<Rightarrow> string"

section \<open>Package lexer, as the parser uses it\<close>

text \<open>
  Modelled from the spec: the tokenizer, which is not in the sources. It exposes a
  next-token operation and invokes the error callback it was created with, with position
  and message, on malformed input. So the tokenizer of one input is the sequence of what
  its successive calls do: give a token, or report malformed input; after the sequence
  it gives the end-of-input token at \<open>endPos\<close> for ever.
\<close>

datatype LexItem = Tok Token | Malformed Position string

record Lexer =
  pending :: "LexItem list"
  endPos :: Position

datatype LexStep = Gives Token Lexer | Reports Position string

definition NextToken :: "Lexer \<Rightarrow> LexStep" where
  "NextToken lx =
     (case pending lx of
        [] \<Rightarrow> Gives \<lparr>Type = EOF, Literal = [], Pos = endPos lx\<rparr> lx
      | Tok t # rest \<Rightarrow> Gives t (lx\<lparr>pending := rest\<rparr>)
      | Malformed ps m # rest \<Rightarrow> Reports ps m)"

section \<open>Package ast, as the parser builds it\<close>

text \<open>
  Modelled from the spec: the declarations of package \<open>ast\<close>, which is not in the
  sources: the node variants of the spec, with the names and the fields of the composite
  literals and assignments of the parser, in the order given with each constructor. A
  field that the parser may leave \<open>nil\<close> is an option. Where the spec and the parser
  differ the parser decides:
  \<open>HashLiteral.Pair\<close> is a Go \<open>map[ast.Expression]ast.Expression\<close>: its keys are
  the pointers to the key nodes, each freshly allocated, so no two keys are equal and the
  map holds one entry for each pair parsed, in no order: a multiset of pairs.
\<close>

datatype Identifier = Identifier Token string \<comment> \<open>Token, Value\<close>

datatype Expression =
    IdentifierExpr Identifier \<comment> \<open>an \<open>*ast.Identifier\<close> as an expression\<close>
  | Integer Token int \<comment> \<open>Token, Value\<close>
  | Boolean Token bool \<comment> \<open>Token, Value\<close>
  | String Token string \<comment> \<open>Token, Value\<close>
  | PrefixExpression Token string Expression \<comment> \<open>Token, Operator, Value\<close>
  | InfixExpression Token Expression string Expression \<comment> \<open>Token, Left, Operator, Right\<close>
  | PostfixExpression Token Expression string \<comment> \<open>Token, Left, Operator\<close>
  | IfExpression Token Expression BlockExpression "BlockExpression option"
      \<comment> \<open>Token, Condition, ThenBody, ElseBody\<close>
  | FunctionExpression Token "Identifier option" "Identifier list" BlockExpression
      \<comment> \<open>Token, Name, Parameters, Body\<close>
  | ArrayLiteral Token "Expression list" \<comment> \<open>Token, Elements\<close>
  | HashLiteral Token "(Expression \<times> Expression) multiset" \<comment> \<open>Token, Pair\<close>
  | CallExpression Token Expression "Expression list" \<comment> \<open>Token, Function, Arguments\<close>
and Statement =
    LetStatement Token Identifier Expression \<comment> \<open>Token, Name, Value\<close>
  | ReturnStatement Token "Expression option" \<comment> \<open>Token, Value\<close>
  | ExpressionStatement Token Expression \<comment> \<open>Token, Value\<close>
and BlockExpression =
    BlockExpression Token "Statement list" \<comment> \<open>Token, Statements\<close>

record Program =
  Statements :: "Statement list"

section \<open>Package parser\<close>

record ParserError =
  errorToken :: Token
  msg :: string
  pos :: Position

text \<open>The verb \<open>%d\<close> of \<open>fmt.Sprintf\<close> on an \<open>int\<close>.\<close>

function digits :: "nat \<Rightarrow> string" where
  "digits n =
     (if n < 10 then [''0123456789'' ! n]
      else digits (n div 10) @ [''0123456789'' ! (n mod 10)])"
  by pat_completeness auto
termination
  by (relation "measure id") auto

declare digits.simps [simp del]

definition fmt_d :: "int \<Rightarrow> string" where
  "fmt_d i = (if i < 0 then CHR ''-'' # digits (nat (- i)) else digits (nat i))"

text \<open>\<open>ParserError.Error\<close>: \<open>"%s at line: %d, column: %d"\<close> of \<open>msg\<close> and \<open>pos\<close>.\<close>

definition Error :: "ParserError \<Rightarrow> string" where
  "Error e = msg e @ '' at line: '' @ fmt_d (Line (pos e)) @ '', column: '' @ fmt_d (Column (pos e))"

text \<open>
  The entries of the two dispatch tables are methods of the parser: one constant for each
  method that is registered.
\<close>

datatype prefixParseFn =
    Fn_parseIdentifier | Fn_parseInteger | Fn_parseBoolean | Fn_parseString
  | Fn_parseIfExpression | Fn_parseFunction | Fn_parseArrayLiteral | Fn_parseHashLiteral
  | Fn_parseGroupedExpression | Fn_parsePrefix

datatype infixParseFn =
    Fn_parseCallExpression | Fn_parseIndexExpression | Fn_parseInfix | Fn_parsePostfix

text \<open>
  The parser. \<open>tracing\<close> is false in every parser that \<open>New\<close> makes and nothing
  sets it, so the tracing branches (which only print) and \<open>traceIndent\<close> are left out.
\<close>

record Parser =
  lex :: Lexer
  initialized :: bool
  currentToken :: Token
  peekToken :: Token
  prefixFns :: "TokenType \<rightharpoonup> prefixParseFn"
  infixFns :: "TokenType \<rightharpoonup> infixParseFn"

text \<open>
  A Go \<open>panic\<close> carries a value: a \<open>ParserError\<close> from the parser's own checks, or
  the string that the error handler given to the lexer formats.
\<close>

datatype panic_value = ParserErrorValue ParserError | StringValue string

text \<open>
  What a call of a parser method does: it returns a value and leaves the parser in a new
  state, or it panics, or (in this model only) the fuel that bounds the depth of the
  calls ran out before it did either.
\<close>

datatype 'a outcome = Done 'a Parser | Panic panic_value | OutOfFuel

fun andThen :: "'a outcome \<Rightarrow> ('a \<Rightarrow> Parser \<Rightarrow> 'b outcome) \<Rightarrow> 'b outcome" where
  "andThen (Done a p) f = f a p"
| "andThen (Panic v) f = Panic v"
| "andThen OutOfFuel f = OutOfFuel"

definition whenDo :: "bool \<Rightarrow> (Parser \<Rightarrow> 'a outcome) \<Rightarrow> Parser \<Rightarrow> unit outcome" where
  "whenDo c m p = (if c then andThen (m p) (\<lambda>_ p. Done () p) else Done () p)"

text \<open>
  The zero value of \<open>token.Token\<close>, which the two token fields of a new parser hold.
  \<open>ParseProgram\<close> overwrites both before anything reads them.
\<close>

definition zeroPosition :: Position where
  "zeroPosition = \<lparr>Line = 0, Column = 0\<rparr>"

definition zeroToken :: Token where
  "zeroToken = \<lparr>Type = OTHER [], Literal = [], Pos = zeroPosition\<rparr>"

text \<open>The error handler that \<open>New\<close> gives to the lexer: it panics with a string.\<close>

definition handler :: "Position \<Rightarrow> string \<Rightarrow> panic_value" where
  "handler ps m =
     StringValue (m @ '' at line: '' @ fmt_d (Line ps) @ '', column: '' @ fmt_d (Column ps))"

text \<open>
  \<open>New\<close> of package \<open>parser\<close>, on the lexer of the input: the registrations in
  the order of the source, a later one replacing an earlier one for the same token type.
\<close>

definition parser_New :: "Deps \<Rightarrow> Lexer \<Rightarrow> Parser" where
  "parser_New E lx =
     \<lparr>lex = lx,
      initialized = False,
      currentToken = zeroToken,
      peekToken = zeroToken,
      prefixFns =
        fold (\<lambda>tk m. m(tk \<mapsto> Fn_parsePrefix)) (GetPrefixOperators E)
          (Map.empty
            (IDENT \<mapsto> Fn_parseIdentifier,
             INT_T \<mapsto> Fn_parseInteger,
             TRUE \<mapsto> Fn_parseBoolean,
             FALSE \<mapsto> Fn_parseBoolean,
             STRING \<mapsto> Fn_parseString,
             IF \<mapsto> Fn_parseIfExpression,
             FUNCTION \<mapsto> Fn_parseFunction,
             LBRACKET \<mapsto> Fn_parseArrayLiteral,
             LBRACE \<mapsto> Fn_parseHashLiteral,
             LPAREN \<mapsto> Fn_parseGroupedExpression)),
      infixFns =
        fold (\<lambda>tk m. m(tk \<mapsto> Fn_parsePostfix)) (GetPostfixOperators E)
          (fold (\<lambda>tk m. m(tk \<mapsto> Fn_parseInfix)) (GetInfixOperators E)
            (Map.empty
              (LPAREN \<mapsto> Fn_parseCallExpression,
               LBRACKET \<mapsto> Fn_parseIndexExpression)))\<rparr>"

definition nextToken :: "Parser \<Rightarrow> Token outcome" where
  "nextToken p =
     (case NextToken (lex p) of
        Gives t lx \<Rightarrow>
          Done (peekToken p) (p\<lparr>currentToken := peekToken p, peekToken := t, lex := lx\<rparr>)
      | Reports ps m \<Rightarrow> Panic (handler ps m))"

definition peekTokenPrecedence :: "Deps \<Rightarrow> Parser \<Rightarrow> int" where
  "peekTokenPrecedence E p = Precedence E (peekToken p)"

definition currentTokenPrecedence :: "Deps \<Rightarrow> Parser \<Rightarrow> int" where
  "currentTokenPrecedence E p = Precedence E (currentToken p)"

definition nextTokenTypeIs :: "Parser \<Rightarrow> TokenType \<Rightarrow> bool" where
  "nextTokenTypeIs p expect = (Type (peekToken p) = expect)"

definition currentTokenTypeIs :: "Parser \<Rightarrow> TokenType \<Rightarrow> bool" where
  "currentTokenTypeIs p expect = (Type (currentToken p) = expect)"

definition peekTokenTypeIs :: "Parser \<Rightarrow> TokenType \<Rightarrow> bool" where
  "peekTokenTypeIs p expectType = (Type (peekToken p) = expectType)"

text \<open>
  The panics of the parser build a \<open>ParserError\<close> from \<open>msg\<close> and
  \<open>errorToken\<close> only: its field \<open>pos\<close> keeps the zero value.
\<close>

definition expectedGot :: "Deps \<Rightarrow> TokenType \<Rightarrow> Token \<Rightarrow> panic_value" where
  "expectedGot E expect actual =
     ParserErrorValue
       \<lparr>errorToken = actual,
        msg = ''expectd token type is '' @ QuoteTokenType E expect
              @ '', got '' @ QuoteTokenType E (Type actual),
        pos = zeroPosition\<rparr>"

definition assertTokenType :: "Deps \<Rightarrow> TokenType \<Rightarrow> Token \<Rightarrow> Parser \<Rightarrow> unit outcome" where
  "assertTokenType E expect actual p =
     (if Type actual \<noteq> expect then Panic (expectedGot E expect actual)
      else andThen (nextToken p) (\<lambda>_ p. Done () p))"

definition assertNextTokenType :: "Deps \<Rightarrow> TokenType \<Rightarrow> Parser \<Rightarrow> unit outcome" where
  "assertNextTokenType E expect p = assertTokenType E expect (peekToken p) p"

definition assertCurrentTokenType :: "Deps \<Rightarrow> TokenType \<Rightarrow> Parser \<Rightarrow> unit outcome" where
  "assertCurrentTokenType E expect p = assertTokenType E expect (currentToken p) p"

definition parseIdentifier :: "Parser \<Rightarrow> Expression outcome" where
  "parseIdentifier p =
     Done (IdentifierExpr (Identifier (currentToken p) (Literal (currentToken p)))) p"

definition parseInteger :: "Deps \<Rightarrow> Parser \<Rightarrow> Expression outcome" where
  "parseInteger E p =
     (case ParseInt E (Literal (currentToken p)) of
        None \<Rightarrow>
          Panic (ParserErrorValue
            \<lparr>errorToken = currentToken p,
             msg = ''could not parse '' @ QuoteString E (Literal (currentToken p)) @ '' as intger'',
             pos = zeroPosition\<rparr>)
      | Some v \<Rightarrow> Done (Integer (currentToken p) v) p)"

definition parseBoolean :: "Deps \<Rightarrow> Parser \<Rightarrow> Expression outcome" where
  "parseBoolean E p =
     (if Type (currentToken p) = TRUE then Done (Boolean (currentToken p) True) p
      else if Type (currentToken p) = FALSE then Done (Boolean (currentToken p) False) p
      else
        Panic (ParserErrorValue
          \<lparr>errorToken = currentToken p,
           msg = ''could not parse '' @ QuoteString E (Literal (currentToken p)) @ '' as boolean'',
           pos = zeroPosition\<rparr>))"

definition parseString :: "Parser \<Rightarrow> Expression outcome" where
  "parseString p = Done (String (currentToken p) (Literal (currentToken p))) p"

definition parsePostfix :: "Expression \<Rightarrow> Parser \<Rightarrow> Expression outcome" where
  "parsePostfix left p =
     Done (PostfixExpression (currentToken p) left (Literal (currentToken p))) p"

text \<open>
  \<open>parseParameters\<close>: its loop ends at \<open>RPAREN\<close> or \<open>EOF\<close>. Each turn calls
  \<open>nextToken\<close>, and the turns are bounded by the fuel.
\<close>

fun parseParameters_loop :: "nat \<Rightarrow> Identifier list \<Rightarrow> Parser \<Rightarrow> Identifier list outcome" where
  "parseParameters_loop 0 params p = OutOfFuel"
| "parseParameters_loop (Suc n) params p =
     (if \<not> currentTokenTypeIs p RPAREN \<and> \<not> currentTokenTypeIs p EOF then
        (let params = params @ [Identifier (currentToken p) (Literal (currentToken p))] in
         andThen (nextToken p) (\<lambda>_ p.
         andThen (whenDo (Type (currentToken p) = COMMA) nextToken p) (\<lambda>_ p.
         parseParameters_loop n params p)))
      else Done params p)"

definition parseParameters :: "nat \<Rightarrow> Deps \<Rightarrow> Parser \<Rightarrow> Identifier list outcome" where
  "parseParameters n E p =
     andThen (nextToken p) (\<lambda>_ p.
     andThen (parseParameters_loop n [] p) (\<lambda>params p.
     if \<not> currentTokenTypeIs p RPAREN
     then Panic (expectedGot E RPAREN (currentToken p))
     else Done params p))"


text \<open>
  The methods that call each other all do so through \<open>parseExpression\<close>. Each of
  them is defined with the \<open>parseExpression\<close> it calls as its argument \<open>pe\<close>;
  \<open>parseExpression\<close> itself, further down, ties the knot. A loop is a recursive
  function of its own, and the number of its turns is bounded by its first argument, the
  fuel: a loop with no fuel left is \<open>OutOfFuel\<close>. Where Go mutates a node after
  building it (the \<open>Value\<close> of a prefix expression, the \<open>Right\<close> of a binary
  one, \<open>letStatement.Value\<close>), the node
  is built here once its fields are known.
\<close>

type_synonym parseExpressionFn = "int \<Rightarrow> Parser \<Rightarrow> Expression outcome"

text \<open>
  \<open>parseLetStatement\<close>: \<open>letStatement.Value\<close> and \<open>fe\<close> are the same pointer as
  \<open>express\<close>, so the name given to \<open>fe\<close> is the name of the function node that the
  statement holds.
\<close>

definition parseLetStatement :: "parseExpressionFn \<Rightarrow> Deps \<Rightarrow> Parser \<Rightarrow> Statement outcome" where
  "parseLetStatement pe E p =
     (let letToken = currentToken p in
      andThen (assertNextTokenType E IDENT p) (\<lambda>_ p.
      let name = Identifier (currentToken p) (Literal (currentToken p)) in
      andThen (assertNextTokenType E ASSIGN p) (\<lambda>_ p.
      andThen (nextToken p) (\<lambda>_ p.
      andThen (pe (LOWEST_PRECEDENCE E) p) (\<lambda>express p.
      let val =
        (case express of
           FunctionExpression tk fname params body \<Rightarrow> FunctionExpression tk (Some name) params body
         | _ \<Rightarrow> express) in
      andThen (whenDo (peekTokenTypeIs p SEMICOLON) nextToken p) (\<lambda>_ p.
      Done (LetStatement letToken name val) p))))))"

definition parseReturnStatement :: "parseExpressionFn \<Rightarrow> Deps \<Rightarrow> Parser \<Rightarrow> Statement outcome" where
  "parseReturnStatement pe E p =
     (let retToken = currentToken p in
      andThen
        (if \<not> nextTokenTypeIs p SEMICOLON then
           andThen (nextToken p) (\<lambda>_ p.
           andThen (pe (LOWEST_PRECEDENCE E) p) (\<lambda>express p.
           Done (Some express) p))
         else Done None p) (\<lambda>val p.
      andThen (whenDo (peekTokenTypeIs p SEMICOLON) nextToken p) (\<lambda>_ p.
      Done (ReturnStatement retToken val) p)))"

definition parseExpressionStatement :: "parseExpressionFn \<Rightarrow> Deps \<Rightarrow> Parser \<Rightarrow> Statement outcome" where
  "parseExpressionStatement pe E p =
     (let exprToken = currentToken p in
      andThen (pe (LOWEST_PRECEDENCE E) p) (\<lambda>val p.
      andThen (whenDo (peekTokenTypeIs p SEMICOLON) nextToken p) (\<lambda>_ p.
      Done (ExpressionStatement exprToken val) p)))"

definition parseStatement :: "parseExpressionFn \<Rightarrow> Deps \<Rightarrow> Parser \<Rightarrow> Statement outcome" where
  "parseStatement pe E p =
     (if Type (currentToken p) = LET then parseLetStatement pe E p
      else if Type (currentToken p) = RETURN then parseReturnStatement pe E p
      else parseExpressionStatement pe E p)"

definition parsePrefix :: "parseExpressionFn \<Rightarrow> Deps \<Rightarrow> Parser \<Rightarrow> Expression outcome" where
  "parsePrefix pe E p =
     (let prefixToken = currentToken p; operator = Literal (currentToken p);
          precedence = currentTokenPrecedence E p in
      andThen (nextToken p) (\<lambda>_ p.
      andThen (pe precedence p) (\<lambda>val p.
      Done (PrefixExpression prefixToken operator val) p)))"

definition parseInfix :: "parseExpressionFn \<Rightarrow> Deps \<Rightarrow> Expression \<Rightarrow> Parser \<Rightarrow> Expression outcome" where
  "parseInfix pe E left p =
     (let infixToken = currentToken p; operator = Literal (currentToken p);
          precedence = currentTokenPrecedence E p in
      andThen (nextToken p) (\<lambda>_ p.
      andThen (pe precedence p) (\<lambda>right p.
      Done (InfixExpression infixToken left operator right) p)))"

definition parseGroupedExpression :: "parseExpressionFn \<Rightarrow> Deps \<Rightarrow> Parser \<Rightarrow> Expression outcome" where
  "parseGroupedExpression pe E p =
     andThen (assertCurrentTokenType E LPAREN p) (\<lambda>_ p.
     andThen (pe (LOWEST_PRECEDENCE E) p) (\<lambda>expression p.
     andThen (assertNextTokenType E RPAREN p) (\<lambda>_ p.
     Done expression p)))"

text \<open>
  \<open>parseBlockExpression\<close>: \<open>parseStatement\<close> returns a pointer to a node it has
  built, never \<open>nil\<close>, so every statement parsed is appended.
\<close>

fun parseBlockExpression_loop ::
  "nat \<Rightarrow> parseExpressionFn \<Rightarrow> Deps \<Rightarrow> Statement list \<Rightarrow> Parser \<Rightarrow> Statement list outcome" where
  "parseBlockExpression_loop 0 pe E statements p = OutOfFuel"
| "parseBlockExpression_loop (Suc n) pe E statements p =
     (if \<not> currentTokenTypeIs p RBRACE \<and> \<not> currentTokenTypeIs p EOF then
        andThen (parseStatement pe E p) (\<lambda>statement p.
        andThen (nextToken p) (\<lambda>_ p.
        parseBlockExpression_loop n pe E (statements @ [statement]) p))
      else Done statements p)"

definition parseBlockExpression ::
  "nat \<Rightarrow> parseExpressionFn \<Rightarrow> Deps \<Rightarrow> Parser \<Rightarrow> BlockExpression outcome" where
  "parseBlockExpression n pe E p =
     (let blockToken = currentToken p in
      andThen (assertCurrentTokenType E LBRACE p) (\<lambda>_ p.
      andThen (parseBlockExpression_loop n pe E [] p) (\<lambda>statements p.
      if \<not> currentTokenTypeIs p RBRACE then Panic (expectedGot E RBRACE (currentToken p))
      else Done (BlockExpression blockToken statements) p)))"

definition parseIfExpression ::
  "nat \<Rightarrow> parseExpressionFn \<Rightarrow> Deps \<Rightarrow> Parser \<Rightarrow> Expression outcome" where
  "parseIfExpression n pe E p =
     (let ifToken = currentToken p in
      if \<not> currentTokenTypeIs p IF then Panic (expectedGot E IF (currentToken p))
      else
        andThen (assertNextTokenType E LPAREN p) (\<lambda>_ p.
        andThen (pe (LOWEST_PRECEDENCE E) p) (\<lambda>condition p.
        andThen (assertCurrentTokenType E RPAREN p) (\<lambda>_ p.
        andThen (parseBlockExpression n pe E p) (\<lambda>body p.
        if peekTokenTypeIs p ELSE then
          andThen (nextToken p) (\<lambda>_ p.
          andThen (assertNextTokenType E LBRACE p) (\<lambda>_ p.
          andThen (parseBlockExpression n pe E p) (\<lambda>elseBody p.
          Done (IfExpression ifToken condition body (Some elseBody)) p)))
        else Done (IfExpression ifToken condition body None) p)))))"

definition parseFunction ::
  "nat \<Rightarrow> parseExpressionFn \<Rightarrow> Deps \<Rightarrow> Parser \<Rightarrow> Expression outcome" where
  "parseFunction n pe E p =
     (let fnToken = currentToken p in
      andThen
        (if peekTokenTypeIs p IDENT then
           andThen (nextToken p) (\<lambda>_ p.
           Done (Some (Identifier (currentToken p) (Literal (currentToken p)))) p)
         else Done None p) (\<lambda>fname p.
      andThen (assertNextTokenType E LPAREN p) (\<lambda>_ p.
      andThen (parseParameters n E p) (\<lambda>params p.
      andThen (assertNextTokenType E LBRACE p) (\<lambda>_ p.
      andThen (parseBlockExpression n pe E p) (\<lambda>body p.
      Done (FunctionExpression fnToken fname params body) p))))))"

fun parseArrayLiteral_loop ::
  "nat \<Rightarrow> parseExpressionFn \<Rightarrow> Deps \<Rightarrow> Expression list \<Rightarrow> Parser \<Rightarrow> Expression list outcome" where
  "parseArrayLiteral_loop 0 pe E elements p = OutOfFuel"
| "parseArrayLiteral_loop (Suc n) pe E elements p =
     (if Type (currentToken p) \<noteq> RBRACKET \<and> Type (currentToken p) \<noteq> EOF then
        andThen (pe (LOWEST_PRECEDENCE E) p) (\<lambda>element p.
        andThen (nextToken p) (\<lambda>_ p.
        andThen (whenDo (currentTokenTypeIs p COMMA) nextToken p) (\<lambda>_ p.
        parseArrayLiteral_loop n pe E (elements @ [element]) p)))
      else Done elements p)"

definition parseArrayLiteral ::
  "nat \<Rightarrow> parseExpressionFn \<Rightarrow> Deps \<Rightarrow> Parser \<Rightarrow> Expression outcome" where
  "parseArrayLiteral n pe E p =
     (let arrayToken = currentToken p in
      andThen (assertCurrentTokenType E LBRACKET p) (\<lambda>_ p.
      if peekTokenTypeIs p RBRACKET then
        andThen (nextToken p) (\<lambda>_ p. Done (ArrayLiteral arrayToken []) p)
      else
        andThen (parseArrayLiteral_loop n pe E [] p) (\<lambda>elements p.
        if Type (currentToken p) \<noteq> RBRACKET
        then Panic (expectedGot E RBRACKET (currentToken p))
        else Done (ArrayLiteral arrayToken elements) p)))"

text \<open>
  \<open>parseHashLiteral\<close>: \<open>hash.Pair[k] = v\<close> adds the entry of the fresh key \<open>k\<close>
  to the map.
\<close>

fun parseHashLiteral_loop ::
  "nat \<Rightarrow> parseExpressionFn \<Rightarrow> Deps \<Rightarrow> (Expression \<times> Expression) multiset \<Rightarrow> Parser
     \<Rightarrow> (Expression \<times> Expression) multiset outcome" where
  "parseHashLiteral_loop 0 pe E pair p = OutOfFuel"
| "parseHashLiteral_loop (Suc n) pe E pair p =
     (if Type (currentToken p) \<noteq> RBRACE \<and> Type (currentToken p) \<noteq> EOF then
        andThen (pe (LOWEST_PRECEDENCE E) p) (\<lambda>k p.
        andThen (assertNextTokenType E COLON p) (\<lambda>_ p.
        andThen (nextToken p) (\<lambda>_ p.
        andThen (pe (LOWEST_PRECEDENCE E) p) (\<lambda>v p.
        andThen (nextToken p) (\<lambda>_ p.
        andThen (whenDo (currentTokenTypeIs p COMMA) nextToken p) (\<lambda>_ p.
        parseHashLiteral_loop n pe E (add_mset (k, v) pair) p))))))
      else Done pair p)"

definition parseHashLiteral ::
  "nat \<Rightarrow> parseExpressionFn \<Rightarrow> Deps \<Rightarrow> Parser \<Rightarrow> Expression outcome" where
  "parseHashLiteral n pe E p =
     (let hashToken = currentToken p in
      andThen (assertCurrentTokenType E LBRACE p) (\<lambda>_ p.
      if peekTokenTypeIs p RBRACE then
        andThen (nextToken p) (\<lambda>_ p. Done (HashLiteral hashToken {#}) p)
      else
        andThen (parseHashLiteral_loop n pe E {#} p) (\<lambda>pair p.
        if Type (currentToken p) \<noteq> RBRACE
        then Panic (expectedGot E RBRACE (currentToken p))
        else Done (HashLiteral hashToken pair) p)))"

fun parseCallExpression_loop ::
  "nat \<Rightarrow> parseExpressionFn \<Rightarrow> Deps \<Rightarrow> Expression list \<Rightarrow> Parser \<Rightarrow> Expression list outcome" where
  "parseCallExpression_loop 0 pe E args p = OutOfFuel"
| "parseCallExpression_loop (Suc n) pe E args p =
     (if Type (currentToken p) \<noteq> RPAREN then
        andThen
          (if Type (currentToken p) \<noteq> COMMA then
             andThen (pe (LOWEST_PRECEDENCE E) p) (\<lambda>arg p.
             Done (args @ [arg]) p)
           else Done args p) (\<lambda>args p.
        andThen (nextToken p) (\<lambda>_ p.
        parseCallExpression_loop n pe E args p))
      else Done args p)"

definition parseCallExpression ::
  "nat \<Rightarrow> parseExpressionFn \<Rightarrow> Deps \<Rightarrow> Expression \<Rightarrow> Parser \<Rightarrow> Expression outcome" where
  "parseCallExpression n pe E fn p =
     (let callToken = currentToken p in
      andThen (assertCurrentTokenType E LPAREN p) (\<lambda>_ p.
      andThen (parseCallExpression_loop n pe E [] p) (\<lambda>args p.
      Done (CallExpression callToken fn args) p)))"

definition parseIndexExpression ::
  "parseExpressionFn \<Rightarrow> Deps \<Rightarrow> Expression \<Rightarrow> Parser \<Rightarrow> Expression outcome" where
  "parseIndexExpression pe E ex p =
     (let indexToken = currentToken p; operator = Literal (currentToken p) in
      andThen (assertCurrentTokenType E LBRACKET p) (\<lambda>_ p.
      andThen (pe (LOWEST_PRECEDENCE E) p) (\<lambda>index p.
      andThen (assertNextTokenType E RBRACKET p) (\<lambda>_ p.
      Done (InfixExpression indexToken ex operator index) p))))"

text \<open>
  \<open>parseExpression\<close>. A dispatch through \<open>prefixFns\<close> or \<open>infixFns\<close> is a case
  distinction on the method found there. The \<open>for\<close> loop, with its \<open>break\<close> on a
  token type without an entry in \<open>infixFns\<close>, is \<open>parseExpression_loop\<close>.
\<close>

fun parseExpression_loop ::
  "nat \<Rightarrow> parseExpressionFn \<Rightarrow> Deps \<Rightarrow> int \<Rightarrow> Expression \<Rightarrow> Parser \<Rightarrow> Expression outcome" where
  "parseExpression_loop 0 pe E precedence left p = OutOfFuel"
| "parseExpression_loop (Suc n) pe E precedence left p =
     (if \<not> peekTokenTypeIs p SEMICOLON \<and> precedence < peekTokenPrecedence E p then
        (case infixFns p (Type (peekToken p)) of
           None \<Rightarrow> Done left p
         | Some infixFn \<Rightarrow>
             andThen (nextToken p) (\<lambda>_ p.
             andThen
               (case infixFn of
                  Fn_parseCallExpression \<Rightarrow> parseCallExpression n pe E left p
                | Fn_parseIndexExpression \<Rightarrow> parseIndexExpression pe E left p
                | Fn_parseInfix \<Rightarrow> parseInfix pe E left p
                | Fn_parsePostfix \<Rightarrow> parsePostfix left p) (\<lambda>left p.
             parseExpression_loop n pe E precedence left p)))
      else Done left p)"

primrec parseExpression :: "nat \<Rightarrow> Deps \<Rightarrow> int \<Rightarrow> Parser \<Rightarrow> Expression outcome" where
  "parseExpression 0 E precedence p = OutOfFuel"
| "parseExpression (Suc n) E precedence p =
     (case prefixFns p (Type (currentToken p)) of
        None \<Rightarrow>
          Panic (ParserErrorValue
            \<lparr>errorToken = currentToken p,
             msg = ''can not parse token type '' @ QuoteTokenType E (Type (currentToken p)),
             pos = zeroPosition\<rparr>)
      | Some prefixFn \<Rightarrow>
          andThen
            (case prefixFn of
               Fn_parseIdentifier \<Rightarrow> parseIdentifier p
             | Fn_parseInteger \<Rightarrow> parseInteger E p
             | Fn_parseBoolean \<Rightarrow> parseBoolean E p
             | Fn_parseString \<Rightarrow> parseString p
             | Fn_parseIfExpression \<Rightarrow> parseIfExpression n (parseExpression n E) E p
             | Fn_parseFunction \<Rightarrow> parseFunction n (parseExpression n E) E p
             | Fn_parseArrayLiteral \<Rightarrow> parseArrayLiteral n (parseExpression n E) E p
             | Fn_parseHashLiteral \<Rightarrow> parseHashLiteral n (parseExpression n E) E p
             | Fn_parseGroupedExpression \<Rightarrow> parseGroupedExpression (parseExpression n E) E p
             | Fn_parsePrefix \<Rightarrow> parsePrefix (parseExpression n E) E p) (\<lambda>left p.
          parseExpression_loop n (parseExpression n E) E precedence left p))"

text \<open>
  \<open>ParseProgram\<close>. Its deferred function recovers the panic value \<open>r\<close> and asserts
  \<open>r.(error)\<close>: a \<open>ParserError\<close> has the method \<open>Error\<close> and becomes the error
  returned, with a \<open>nil\<close> program; a string has not, and the failed assertion is a
  new panic of the Go runtime, raised in the deferred function, that leaves
  \<open>ParseProgram\<close>.
\<close>

datatype ParseResult =
    Returns "Program option" "ParserError option"
  | PanicsWith string \<comment> \<open>the panic value that was recovered and was not an error\<close>
  | NoResult \<comment> \<open>out of fuel\<close>

fun ParseProgram_loop ::
  "nat \<Rightarrow> parseExpressionFn \<Rightarrow> Deps \<Rightarrow> Statement list \<Rightarrow> Parser \<Rightarrow> Statement list outcome" where
  "ParseProgram_loop 0 pe E statements p = OutOfFuel"
| "ParseProgram_loop (Suc n) pe E statements p =
     (if \<not> currentTokenTypeIs p EOF then
        andThen (parseStatement pe E p) (\<lambda>statement p.
        andThen (nextToken p) (\<lambda>_ p.
        ParseProgram_loop n pe E (statements @ [statement]) p))
      else Done statements p)"

definition ParseProgram_body :: "nat \<Rightarrow> Deps \<Rightarrow> Parser \<Rightarrow> Program outcome" where
  "ParseProgram_body n E p =
     andThen
       (if \<not> initialized p then
          andThen (nextToken p) (\<lambda>_ p.
          andThen (nextToken p) (\<lambda>_ p.
          Done () (p\<lparr>initialized := True\<rparr>)))
        else Done () p) (\<lambda>_ p.
     andThen (ParseProgram_loop n (parseExpression n E) E [] p) (\<lambda>statements p.
     Done \<lparr>Statements = statements\<rparr> p))"

definition ParseProgram :: "nat \<Rightarrow> Deps \<Rightarrow> Parser \<Rightarrow> ParseResult" where
  "ParseProgram n E p =
     (case ParseProgram_body n E p of
        Done program p' \<Rightarrow> Returns (Some program) None
      | Panic (ParserErrorValue e) \<Rightarrow> Returns None (Some e)
      | Panic (StringValue s) \<Rightarrow> PanicsWith s
      | OutOfFuel \<Rightarrow> NoResult)"


section \<open>Concrete inputs\<close>

text \<open>
  The tables of package \<open>token\<close> are parameters of the model. For the concrete
  examples below they are instantiated with a small table of the usual shape: sums below
  products, both above the lowest precedence, calls and indexing above both; minus and
  bang as prefix operators. Integer literals are read as \<open>parseInteger\<close> reads them,
  by \<open>strconv.ParseInt(literal, 0, 64)\<close>.
\<close>

definition PLUS :: TokenType where "PLUS = OTHER ''PLUS''"
definition MINUS :: TokenType where "MINUS = OTHER ''MINUS''"
definition ASTERISK :: TokenType where "ASTERISK = OTHER ''ASTERISK''"
definition BANG :: TokenType where "BANG = OTHER ''BANG''"

fun sample_Precedence :: "Token \<Rightarrow> int" where
  "sample_Precedence t =
     (if Type t = PLUS \<or> Type t = MINUS then 4
      else if Type t = ASTERISK then 5
      else if Type t = LPAREN then 7
      else if Type t = LBRACKET then 8
      else 0)"

text \<open>
  \<open>strconv.ParseInt(s, 0, 64)\<close> of the Go standard library (Go 1.13 and later), on the
  bytes of the string: an optional sign; the base from the prefix (\<open>0x\<close> 16, \<open>0b\<close> 2,
  \<open>0o\<close> 8, another leading \<open>0\<close> 8, otherwise 10); underscores between digits; an
  error when there is no digit, when a byte is not a digit of the base, when an underscore
  is misplaced, or when the value does not fit a signed 64-bit integer. The parser only
  asks whether the error is \<open>nil\<close>: an error is \<open>None\<close> here.
\<close>

definition lower :: "nat \<Rightarrow> nat" where \<comment> \<open>\<open>c | ('x' - 'X')\<close>, of a byte\<close>
  "lower c = (if c div 32 mod 2 = 1 then c else c + 32)"

datatype NumError = ErrSyntax | ErrRange

definition maxUint64 :: nat where
  "maxUint64 = 2 ^ 64 - 1"

datatype Saw = SawBeginning | SawDigit | SawUnderscore | SawOther

fun underscoreOK_loop :: "bool \<Rightarrow> Saw \<Rightarrow> nat list \<Rightarrow> bool" where
  "underscoreOK_loop hex saw [] = (saw \<noteq> SawUnderscore)"
| "underscoreOK_loop hex saw (c # cs) =
     (if (48 \<le> c \<and> c \<le> 57) \<or> (hex \<and> 97 \<le> lower c \<and> lower c \<le> 102)
      then underscoreOK_loop hex SawDigit cs
      else if c = 95 then
        (if saw \<noteq> SawDigit then False else underscoreOK_loop hex SawUnderscore cs)
      else if saw = SawUnderscore then False
      else underscoreOK_loop hex SawOther cs)"

definition underscoreOK :: "nat list \<Rightarrow> bool" where
  "underscoreOK s0 =
     (let s = (case s0 of c # cs \<Rightarrow> if c = 45 \<or> c = 43 then cs else s0 | [] \<Rightarrow> s0) in
      case s of
        c0 # c1 # cs \<Rightarrow>
          if c0 = 48 \<and> (lower c1 = 98 \<or> lower c1 = 111 \<or> lower c1 = 120)
          then underscoreOK_loop (lower c1 = 120) SawDigit cs
          else underscoreOK_loop False SawBeginning s
      | _ \<Rightarrow> underscoreOK_loop False SawBeginning s)"

fun ParseUint_loop :: "nat \<Rightarrow> nat \<Rightarrow> nat list \<Rightarrow> NumError + nat" where
  "ParseUint_loop base n [] = Inr n"
| "ParseUint_loop base n (c # cs) =
     (if c = 95 then ParseUint_loop base n cs
      else if \<not> (48 \<le> c \<and> c \<le> 57) \<and> \<not> (97 \<le> lower c \<and> lower c \<le> 122)
      then Inl ErrSyntax
      else
        (let d = (if 48 \<le> c \<and> c \<le> 57 then c - 48 else lower c - 97 + 10) in
         if base \<le> d then Inl ErrSyntax
         else if maxUint64 div base + 1 \<le> n then Inl ErrRange
         else if maxUint64 < n * base + d then Inl ErrRange
         else ParseUint_loop base (n * base + d) cs))"

definition ParseUint :: "nat list \<Rightarrow> NumError + nat" where \<comment> \<open>base 0, 64 bits\<close>
  "ParseUint s =
     (case s of
        [] \<Rightarrow> Inl ErrSyntax
      | c0 # rest \<Rightarrow>
          (let (base, digs) =
             (if c0 = 48 then
                (if 3 \<le> length s \<and> lower (s ! 1) = 98 then (2, drop 2 s)
                 else if 3 \<le> length s \<and> lower (s ! 1) = 111 then (8, drop 2 s)
                 else if 3 \<le> length s \<and> lower (s ! 1) = 120 then (16, drop 2 s)
                 else (8, drop 1 s))
              else (10, s)) in
           case ParseUint_loop base 0 digs of
             Inl e \<Rightarrow> Inl e
           | Inr n \<Rightarrow> if 95 \<in> set digs \<and> \<not> underscoreOK s then Inl ErrSyntax else Inr n))"

definition strconv_ParseInt :: "string \<Rightarrow> int option" where
  "strconv_ParseInt str =
     (case map of_char str of
        [] \<Rightarrow> None
      | c # cs \<Rightarrow>
          (let neg = (c = 45); s = (if c = 43 \<or> c = 45 then cs else c # cs) in
           case ParseUint s of
             Inl ErrSyntax \<Rightarrow> None
           | r \<Rightarrow>
               (let un = (case r of Inr n \<Rightarrow> n | Inl e \<Rightarrow> maxUint64) in
                if \<not> neg \<and> 2 ^ 63 \<le> un then None
                else if neg \<and> 2 ^ 63 < un then None
                else Some (if neg then - int un else int un))))"

fun sample_QuoteTokenType :: "TokenType \<Rightarrow> string" where
  "sample_QuoteTokenType (OTHER name) = [CHR 0x22] @ name @ [CHR 0x22]"
| "sample_QuoteTokenType ASSIGN = [CHR 0x22] @ ''ASSIGN'' @ [CHR 0x22]"
| "sample_QuoteTokenType INT_T = [CHR 0x22] @ ''INT'' @ [CHR 0x22]"
| "sample_QuoteTokenType t = [CHR 0x22] @ ''TOKEN'' @ [CHR 0x22]"

fun sample_QuoteString :: "string \<Rightarrow> string" where
  "sample_QuoteString s = [CHR 0x22] @ s @ [CHR 0x22]"

definition sample_Deps :: Deps where
  "sample_Deps =
     \<lparr>Precedence = sample_Precedence,
      LOWEST_PRECEDENCE = 0,
      GetPrefixOperators = [MINUS, BANG],
      GetInfixOperators = [PLUS, MINUS, ASTERISK],
      GetPostfixOperators = [],
      ParseInt = strconv_ParseInt,
      QuoteTokenType = sample_QuoteTokenType,
      QuoteString = sample_QuoteString\<rparr>"

text \<open>A token of a type, with its literal, at a line and a column.\<close>

definition tk :: "TokenType \<Rightarrow> string \<Rightarrow> int \<Rightarrow> int \<Rightarrow> Token" where
  "tk ty lit ln col = \<lparr>Type = ty, Literal = lit, Pos = \<lparr>Line = ln, Column = col\<rparr>\<rparr>"

text \<open>The lexer of a sequence of tokens, the end of the input at a line and a column.\<close>

definition lexer_of :: "Token list \<Rightarrow> int \<Rightarrow> int \<Rightarrow> Lexer" where
  "lexer_of ts ln col = \<lparr>pending = map Tok ts, endPos = \<lparr>Line = ln, Column = col\<rparr>\<rparr>"


text \<open>
  The parser of \<open>New\<close> once \<open>ParseProgram\<close> has initialized it, with given
  current and lookahead tokens and the lexer at a given place: the states that the
  parser goes through while it parses.
\<close>

definition parser_at :: "Deps \<Rightarrow> Token \<Rightarrow> Token \<Rightarrow> Lexer \<Rightarrow> Parser" where
  "parser_at E cur nxt lx =
     (parser_New E lx)\<lparr>initialized := True, currentToken := cur, peekToken := nxt\<rparr>"

text \<open>The end-of-input token of a lexer made by \<open>lexer_of\<close>.\<close>

definition eof_at :: "int \<Rightarrow> int \<Rightarrow> Token" where
  "eof_at ln col = \<lparr>Type = EOF, Literal = [], Pos = \<lparr>Line = ln, Column = col\<rparr>\<rparr>"

text \<open>
  The node that \<open>parseExpression\<close> makes of one token that is an identifier or an
  integer literal: the operands of the expressions below.
\<close>

definition operandNode :: "Deps \<Rightarrow> Token \<Rightarrow> Expression option" where
  "operandNode E t =
     (if Type t = IDENT then Some (IdentifierExpr (Identifier t (Literal t)))
      else if Type t = INT_T then map_option (Integer t) (ParseInt E (Literal t))
      else None)"

text \<open>
  What the statements below ask of the tables of package \<open>token\<close>: the token types
  of identifiers, integer literals, \<open>fn\<close> and the opening bracket and brace are not
  prefix operators (such a registration would replace the method that \<open>New\<close>
  registers first), and the end of the input, identifiers, integer literals, the closing
  delimiters, comma and colon are not in the two lists of operators that follow an
  operand.
\<close>

definition plainTables :: "Deps \<Rightarrow> bool" where
  "plainTables E =
     ((\<forall>ty \<in> set [IDENT, INT_T, FUNCTION, LBRACKET, LBRACE]. ty \<notin> set (GetPrefixOperators E))
      \<and> (\<forall>ty \<in> set [EOF, IDENT, INT_T, RPAREN, RBRACKET, RBRACE, COMMA, COLON].
            ty \<notin> set (GetInfixOperators E) \<and> ty \<notin> set (GetPostfixOperators E)))"

text \<open>
  A token is a binary operator when its type is registered with \<open>parseInfix\<close> (and
  not replaced by a postfix registration), it is not the statement terminator, and its
  precedence is above the lowest.
\<close>

definition binaryOperator :: "Deps \<Rightarrow> Token \<Rightarrow> bool" where
  "binaryOperator E t =
     (Type t \<in> set (GetInfixOperators E) \<and> Type t \<notin> set (GetPostfixOperators E)
      \<and> Type t \<noteq> SEMICOLON \<and> LOWEST_PRECEDENCE E < Precedence E t)"

text \<open>A token is a prefix operator when its type is registered with \<open>parsePrefix\<close>.\<close>

definition prefixOperator :: "Deps \<Rightarrow> Token \<Rightarrow> bool" where
  "prefixOperator E t =
     (Type t \<in> set (GetPrefixOperators E) \<and> Type t \<noteq> LET \<and> Type t \<noteq> RETURN \<and> Type t \<noteq> EOF)"

text \<open>
  An opening parenthesis starts a call when its type is still registered with
  \<open>parseCallExpression\<close> and its precedence is above the lowest.
\<close>

definition callParen :: "Deps \<Rightarrow> Token \<Rightarrow> bool" where
  "callParen E t =
     (Type t = LPAREN \<and> LPAREN \<notin> set (GetInfixOperators E)
      \<and> LPAREN \<notin> set (GetPostfixOperators E) \<and> LOWEST_PRECEDENCE E < Precedence E t)"

text \<open>
  A Go \<open>range\<close> over a map visits its entries in an order that is not specified: a
  sequence is a possible order of the visit when it holds each entry of the map once.
\<close>

definition rangeOrder :: "('k \<times> 'v) multiset \<Rightarrow> ('k \<times> 'v) list \<Rightarrow> bool" where
  "rangeOrder m xs = (mset xs = m)"

text \<open>
  An outcome that is not the panic of a \<open>ParserError\<close> with a position other than the
  zero value.
\<close>

definition zeroPos :: "'a outcome \<Rightarrow> bool" where
  "zeroPos r = (case r of Panic (ParserErrorValue e) \<Rightarrow> pos e = zeroPosition | _ \<Rightarrow> True)"

text \<open>
  The parser of \<open>New\<close>, initialized, on a sequence of tokens still to come: the first
  is the current token, the second the lookahead, the rest is with the lexer.
\<close>

fun stream_at :: "Deps \<Rightarrow> Token list \<Rightarrow> int \<Rightarrow> int \<Rightarrow> Parser" where
  "stream_at E (t # u # ts) ln col = parser_at E t u (lexer_of ts ln col)"
| "stream_at E [t] ln col = parser_at E t (eof_at ln col) (lexer_of [] ln col)"
| "stream_at E [] ln col = parser_at E (eof_at ln col) (eof_at ln col) (lexer_of [] ln col)"




text \<open>
  The tokens of the pairs of a hash literal: a key, a colon and a value, each one token,
  followed by the comma \<open>cm\<close> or not, as the flag says; and the pairs of nodes, when keys
  and values are identifiers or integer literals.
\<close>

definition separatedPairs :: "Token \<Rightarrow> (Token \<times> Token \<times> Token \<times> bool) list \<Rightarrow> Token list" where
  "separatedPairs cm prs =
     concat (map (\<lambda>(k, cl, v, c). if c then [k, cl, v, cm] else [k, cl, v]) prs)"

definition pairNodes ::
  "Deps \<Rightarrow> (Token \<times> Token \<times> Token \<times> bool) list \<Rightarrow> (Expression \<times> Expression) list" where
  "pairNodes E prs = map (\<lambda>(k, cl, v, c). (the (operandNode E k), the (operandNode E v))) prs"

text \<open>The program that is one expression statement.\<close>

definition expressionProgram :: "Token \<Rightarrow> Expression \<Rightarrow> ParseResult" where
  "expressionProgram t e = Returns (Some \<lparr>Statements = [ExpressionStatement t e]\<rparr>) None"

section \<open>Readings of binary expressions\<close>

text \<open>
  What it is for a parse to respect precedence is said here in the words of the
  specification, apart from the parser, and compared with the parser further down. A
  reading of a sequence of tokens is a way of bracketing it: an operand token, a
  parenthesised reading, a prefix operator applied to a reading, or a binary operator
  between two readings.
\<close>

datatype Reading =
    Operand Token
  | Group Token Reading Token
  | Prefixed Token Reading
  | Binary Reading Token Reading

text \<open>The input of a reading, and the node that it stands for.\<close>

fun tokens :: "Reading \<Rightarrow> Token list" where
  "tokens (Operand x) = [x]"
| "tokens (Group lp t rp) = lp # tokens t @ [rp]"
| "tokens (Prefixed m t) = m # tokens t"
| "tokens (Binary l opr r) = tokens l @ opr # tokens r"

fun node :: "Deps \<Rightarrow> Reading \<Rightarrow> Expression" where
  "node E (Operand x) = the (operandNode E x)"
| "node E (Group lp t rp) = node E t"
| "node E (Prefixed m t) = PrefixExpression m (Literal m) (node E t)"
| "node E (Binary l opr r) = InfixExpression opr (node E l) (Literal opr) (node E r)"

text \<open>
  A reading is well formed when its tokens are what their places ask for: operands are
  identifiers or integer literals, operators are registered as such, parentheses are
  parentheses (and the opening one has kept its registration with
  \<open>parseGroupedExpression\<close>).
\<close>

fun wellFormed :: "Deps \<Rightarrow> Reading \<Rightarrow> bool" where
  "wellFormed E (Operand x) = (operandNode E x \<noteq> None)"
| "wellFormed E (Group lp t rp) =
     (Type lp = LPAREN \<and> LPAREN \<notin> set (GetPrefixOperators E) \<and> Type rp = RPAREN
      \<and> wellFormed E t)"
| "wellFormed E (Prefixed m t) = (prefixOperator E m \<and> wellFormed E t)"
| "wellFormed E (Binary l opr r) = (binaryOperator E opr \<and> wellFormed E l \<and> wellFormed E r)"

text \<open>
  The operators of a reading that no parenthesis and no other operator separates from its
  left end are those of its left spine; \<open>leftAbove\<close> says that their precedence is
  above \<open>q\<close>. The operators that nothing separates from its right end are the binary and
  prefix operators met on the way down its right operands; \<open>rightAtLeast\<close> says that
  their precedence is at least \<open>q\<close>.
\<close>

fun leftAbove :: "Deps \<Rightarrow> int \<Rightarrow> Reading \<Rightarrow> bool" where
  "leftAbove E q (Binary l opr r) = (q < Precedence E opr \<and> leftAbove E q l)"
| "leftAbove E q (Operand x) = True"
| "leftAbove E q (Group lp t rp) = True"
| "leftAbove E q (Prefixed m t) = True"

fun rightAtLeast :: "Deps \<Rightarrow> int \<Rightarrow> Reading \<Rightarrow> bool" where
  "rightAtLeast E q (Binary l opr r) = (q \<le> Precedence E opr \<and> rightAtLeast E q r)"
| "rightAtLeast E q (Prefixed m t) = (q \<le> Precedence E m \<and> rightAtLeast E q t)"
| "rightAtLeast E q (Operand x) = True"
| "rightAtLeast E q (Group lp t rp) = True"

text \<open>
  A reading respects precedence when, at every binary operator, the operators at the left
  end of its right operand bind tighter than it does (so in \<open>1 + 2 * 3\<close> the product is
  the right operand of the sum), and those at the right end of its left operand bind at
  least as tight (so \<open>a + b + c\<close> folds to the left); and when a prefix operator is
  applied to a reading whose operators at the left end bind tighter than the prefix
  operator's token (its operand is parsed with the precedence of that token as the
  threshold). Parentheses start afresh.
\<close>

fun respectsPrecedence :: "Deps \<Rightarrow> Reading \<Rightarrow> bool" where
  "respectsPrecedence E (Operand x) = True"
| "respectsPrecedence E (Group lp t rp) = respectsPrecedence E t"
| "respectsPrecedence E (Prefixed m t) =
     (leftAbove E (Precedence E m) t \<and> respectsPrecedence E t)"
| "respectsPrecedence E (Binary l opr r) =
     (rightAtLeast E (Precedence E opr) l \<and> leftAbove E (Precedence E opr) r
      \<and> respectsPrecedence E l \<and> respectsPrecedence E r)"

text \<open>
  The size of a reading, which bounds the fuel that parsing it takes, and the number of
  binary operators on its left spine, the turns of the loop of \<open>parseExpression\<close> that
  build it.
\<close>

fun nodes :: "Reading \<Rightarrow> nat" where
  "nodes (Operand x) = 1"
| "nodes (Group lp t rp) = Suc (nodes t)"
| "nodes (Prefixed m t) = Suc (nodes t)"
| "nodes (Binary l opr r) = Suc (nodes l + nodes r)"

fun spine :: "Reading \<Rightarrow> nat" where
  "spine (Binary l opr r) = Suc (spine l)"
| "spine (Operand x) = 0"
| "spine (Group lp t rp) = 0"
| "spine (Prefixed m t) = 0"

text \<open>
  The loop of \<open>parseExpression\<close> at the threshold \<open>q\<close> stops before the token \<open>u\<close>;
  the token \<open>u\<close> stops every call of \<open>parseExpression\<close> that is still open at the right
  end of a reading; and the token that follows when the tokens \<open>R\<close> are still to come.
\<close>

definition stopsAt :: "Deps \<Rightarrow> int \<Rightarrow> Token \<Rightarrow> bool" where
  "stopsAt E q u =
     (Type u = SEMICOLON \<or> \<not> q < Precedence E u
      \<or> (Type u \<notin> set (GetPostfixOperators E) \<and> Type u \<notin> set (GetInfixOperators E)
         \<and> Type u \<noteq> LPAREN \<and> Type u \<noteq> LBRACKET))"

fun closes :: "Deps \<Rightarrow> Reading \<Rightarrow> Token \<Rightarrow> bool" where
  "closes E (Binary l opr r) u = (stopsAt E (Precedence E opr) u \<and> closes E r u)"
| "closes E (Prefixed m t) u = (stopsAt E (Precedence E m) u \<and> closes E t u)"
| "closes E (Operand x) u = True"
| "closes E (Group lp t rp) u = True"

definition lookahead :: "Token list \<Rightarrow> int \<Rightarrow> int \<Rightarrow> Token" where
  "lookahead R ln col = (case R of [] \<Rightarrow> eof_at ln col | u # _ \<Rightarrow> u)"

text \<open>
  Every input has a reading that respects precedence. An input is a chain: a first
  operand and then pairs of a binary operator and an operand, where an operand is a
  token, a parenthesised reading, or a prefix operator before an operand. Its reading is
  built from left to right: the next operator and operand go as deep down the right end
  of the reading so far as there is an operator of lower precedence to take them.
\<close>

fun primary :: "Reading \<Rightarrow> bool" where
  "primary (Binary l opr r) = False"
| "primary (Prefixed m t) = primary t"
| "primary (Operand x) = True"
| "primary (Group lp t rp) = True"

fun attach :: "Deps \<Rightarrow> Reading \<Rightarrow> Token \<Rightarrow> Reading \<Rightarrow> Reading" where
  "attach E (Binary l opr' r) opr x =
     (if rightAtLeast E (Precedence E opr) (Binary l opr' r) then Binary (Binary l opr' r) opr x
      else Binary l opr' (attach E r opr x))"
| "attach E (Prefixed m t) opr x =
     (if rightAtLeast E (Precedence E opr) (Prefixed m t) then Binary (Prefixed m t) opr x
      else Prefixed m (attach E t opr x))"
| "attach E (Operand y) opr x = Binary (Operand y) opr x"
| "attach E (Group lp t rp) opr x = Binary (Group lp t rp) opr x"

definition reading :: "Deps \<Rightarrow> Reading \<Rightarrow> (Token \<times> Reading) list \<Rightarrow> Reading" where
  "reading E x0 ops = foldl (\<lambda>t (opr, x). attach E t opr x) x0 ops"

definition chain :: "Reading \<Rightarrow> (Token \<times> Reading) list \<Rightarrow> Token list" where
  "chain x0 ops = tokens x0 @ concat (map (\<lambda>(opr, x). opr # tokens x) ops)"

section \<open>The instruction encoding and the virtual machine\<close>

lemma putOperand_2: "putOperand 2 n = [word_of_int (n div 256), word_of_int n]"
  by (simp add: putOperand_def numeral_2_eq_2)

lemma putOperand_1: "putOperand (Suc 0) n = [word_of_int n]"
  by (simp add: putOperand_def)

lemma big_endian_16:
  "(push_bit 8 (ucast (word_of_int (n div 256) :: byte)) + ucast (word_of_int n :: byte) :: 16 word)
     = word_of_int n"
proof -
  have "uint (push_bit 8 (ucast (word_of_int (n div 256) :: byte)) + ucast (word_of_int n :: byte) :: 16 word)
      = 256 * ((n div 256) mod 256) + n mod 256"
    by (simp add: uint_word_ariths push_bit_eq_mult uint_word_of_int take_bit_eq_mod
        uint_up_ucast is_up)
  also have "\<dots> = n mod (256 * 256)"
    using zmod_zmult2_eq [of 256 n 256] by linarith
  also have "\<dots> = uint (word_of_int n :: 16 word)"
    by (simp add: uint_word_of_int take_bit_eq_mod)
  finally show ?thesis
    by (simp add: word_uint_eq_iff)
qed

text \<open>Decoding what was encoded at width 2 gives the operand back, modulo \<open>2^16\<close>.\<close>

lemma ReadUint16_putOperand: "ReadUint16 (putOperand 2 n @ rest) = Some (word_of_int n)"
  by (simp add: putOperand_2 big_endian_16)

lemma Make_OpConstant:
  "Make enc OpConstant [i] = [enc OpConstant, word_of_int (i div 256), word_of_int i]"
  by (simp add: Make_def putOperand_2)

text \<open>
  Claim C2. The encoding is bit-exact, whatever the numbering of the opcodes: a
  constant load of pool index 65534 is the opcode byte, then \<open>0xFF\<close>, then \<open>0xFE\<close>,
  and decoding these operand bytes gives 65534 back; an access to local slot 126 is the
  opcode byte, then 126; the creation of a closure of function index 65534 with 255 free
  variables is the opcode byte, then \<open>0xFF\<close>, \<open>0xFE\<close>, \<open>0xFF\<close>. These are the
  vectors of \<open>TestMake\<close>.
\<close>

theorem Make_bit_exact:
  "Make enc OpConstant [65534] = [enc OpConstant, 0xFF, 0xFE]
   \<and> ReadUint16 (tl (Make enc OpConstant [65534])) = Some 65534
   \<and> ReadUint16 [0xFF, 0xFE] = Some 65534
   \<and> Make enc OpSetLocal [126] = [enc OpSetLocal, 126]
   \<and> Make enc OpClosure [65534, 255] = [enc OpClosure, 0xFF, 0xFE, 0xFF]"
  by (simp add: Make_def putOperand_2 putOperand_1)

lemma int_StackSize: "int StackSize = 2048"
  by (simp add: StackSize_def)

lemma StackSize_pos: "0 < StackSize"
  by (simp add: StackSize_def)

text \<open>
  Claim C3. The check of \<open>pushStack\<close> compares \<open>sp\<close>, the index of the top value,
  with the length of the stack. On a stack that holds as many values as it has slots,
  \<open>sp\<close> is the length minus one, the check passes, \<open>sp\<close> is incremented and the
  store at the new \<open>sp\<close> is out of range: \<open>pushStack\<close> does not return the error
  \<open>Stack full\<close>, it panics, with \<open>sp\<close> changed.
\<close>

theorem pushStack_on_full_stack:
  assumes "sp v = int (length (stack v)) - 1"
  shows "pushStack v ob = (v\<lparr>sp := sp v + 1\<rparr>, Panics IndexOutOfRange)"
  using assms by (simp add: pushStack_def Let_def)

theorem pushStack_on_full_stack_witness:
  "sp ((vm_New \<lparr>Instructions = [], Constants = []\<rparr>)\<lparr>sp := 2047\<rparr> :: nat VM)
     = int (length (stack ((vm_New \<lparr>Instructions = [], Constants = []\<rparr>)\<lparr>sp := 2047\<rparr> :: nat VM))) - 1
   \<and> pushStack ((vm_New \<lparr>Instructions = [], Constants = []\<rparr>)\<lparr>sp := 2047\<rparr> :: nat VM) (Some 7)
     = ((vm_New \<lparr>Instructions = [], Constants = []\<rparr>)\<lparr>sp := 2048\<rparr>, Panics IndexOutOfRange)"
  using pushStack_on_full_stack
    [of "(vm_New \<lparr>Instructions = [], Constants = []\<rparr>)\<lparr>sp := 2047\<rparr> :: nat VM" "Some 7"]
  by (simp add: vm_New_def int_StackSize)

text \<open>
  A full stack is reached by running: on the program of 2049 constant loads, the first
  2048 fill the stack of the machine that \<open>New\<close> makes, and the last one makes
  \<open>Run\<close> panic, with \<open>sp\<close> at 2048.
\<close>

lemma length_constant_loads: "length (constant_loads enc m) = 3 * m"
  by (induction m) (simp_all add: constant_loads_def)

lemma drop_constant_loads:
  "j \<le> m \<Longrightarrow> drop (3 * j) (constant_loads enc m) = constant_loads enc (m - j)"
proof (induction j arbitrary: m)
  case 0
  then show ?case by simp
next
  case (Suc j)
  then obtain m' where m: "m = Suc m'" by (cases m) auto
  have e: "3 * Suc j = Suc (Suc (Suc (3 * j)))" by simp
  have "drop (3 * j) (constant_loads enc m') = constant_loads enc (m' - j)"
    using Suc m by simp
  then show ?case
    unfolding e m by (simp add: constant_loads_def)
qed

lemma constant_loads_at:
  assumes "j < m"
  shows "constant_loads enc m ! (3 * j) = enc OpConstant"
    and "ReadUint16 (drop (3 * j + 1) (constant_loads enc m)) = Some 0"
proof -
  obtain d where d: "m - j = Suc d"
    using assms by (cases "m - j") auto
  have dr: "drop (3 * j) (constant_loads enc m) = enc OpConstant # 0 # 0 # constant_loads enc d"
    using drop_constant_loads [of j m enc] assms d by (simp add: constant_loads_def)
  have lt: "3 * j < length (constant_loads enc m)"
    using assms by (simp add: length_constant_loads)
  show "constant_loads enc m ! (3 * j) = enc OpConstant"
    using hd_drop_conv_nth [OF lt] dr by simp
  have "drop (3 * j + 1) (constant_loads enc m) = drop 1 (drop (3 * j) (constant_loads enc m))"
    by (simp add: add.commute)
  then show "ReadUint16 (drop (3 * j + 1) (constant_loads enc m)) = Some 0"
    by (simp add: dr)
qed

lemma Run_from_constant_loads:
  assumes "instructions v = constant_loads enc m" and "constants v = [c]"
    and "length (stack v) = StackSize" and "sp v = int j - 1" and "j \<le> StackSize"
    and "StackSize < m"
  shows "snd (Run_from enc v (3 * j)) = Panics IndexOutOfRange
       \<and> sp (fst (Run_from enc v (3 * j))) = int StackSize"
  using assms
proof (induction "StackSize - j" arbitrary: j v)
  case 0
  then have j: "j = StackSize" by simp
  have jm: "j < m" using 0 by simp
  have ip: "3 * j < length (instructions v)"
    using jm 0 by (simp add: length_constant_loads)
  have push: "pushStack v c = (v\<lparr>sp := int StackSize\<rparr>, Panics IndexOutOfRange)"
    using 0 j by (simp add: pushStack_def Let_def)
  show ?case
    apply (subst Run_from.simps)
    using ip constant_loads_at [OF jm, of enc] 0(2,3) push
    apply (simp del: ReadUint16.simps)
    apply (subst Run_from.simps)
    using ip constant_loads_at [OF jm, of enc] 0(2,3) push
    apply (simp del: ReadUint16.simps)
    done
next
  case (Suc d)
  then have j: "j < StackSize" by simp
  have jm: "j < m" using Suc j by simp
  have ip: "3 * j < length (instructions v)"
    using jm Suc by (simp add: length_constant_loads)
  let ?v' = "v\<lparr>sp := int j, stack := (stack v)[j := c]\<rparr>"
  have push: "pushStack v c = (?v', ReturnNil)"
    using Suc j by (simp add: pushStack_def Let_def)
  have e: "Suc (Suc (Suc (3 * j))) = 3 * Suc j" by simp
  have step: "Run_from enc v (3 * j) = Run_from enc ?v' (3 * Suc j)"
    apply (subst Run_from.simps)
    using ip constant_loads_at [OF jm, of enc] Suc(3,4) push
    apply (simp del: ReadUint16.simps mult_Suc_right add: e)
    done
  have "snd (Run_from enc ?v' (3 * Suc j)) = Panics IndexOutOfRange
       \<and> sp (fst (Run_from enc ?v' (3 * Suc j))) = int StackSize"
    using Suc by (intro Suc(1)) simp_all
  then show ?case
    by (simp only: step)
qed

lemma Run_2049_constant_loads:
  "snd (Run enc (vm_New \<lparr>Instructions = constant_loads enc 2049, Constants = [c]\<rparr>))
     = Panics IndexOutOfRange
   \<and> sp (fst (Run enc (vm_New \<lparr>Instructions = constant_loads enc 2049, Constants = [c]\<rparr>)))
     = 2048"
  using Run_from_constant_loads
    [of "vm_New \<lparr>Instructions = constant_loads enc 2049, Constants = [c]\<rparr>" enc 2049 c 0]
  by (simp add: Run_def vm_New_def StackSize_def)

lemma Run_constant_load:
  assumes "ReadUint16 [hi, lo] = Some index" and "unat index < length cs"
  shows "Run enc (vm_New \<lparr>Instructions = [enc OpConstant, hi, lo], Constants = cs\<rparr>)
     = (\<lparr>instructions = [enc OpConstant, hi, lo], constants = cs,
         stack = (replicate StackSize None)[0 := cs ! unat index], sp = 0\<rparr>, ReturnNil)"
proof -
  let ?v = "vm_New \<lparr>Instructions = [enc OpConstant, hi, lo], Constants = cs\<rparr>"
  let ?v' = "\<lparr>instructions = [enc OpConstant, hi, lo], constants = cs,
         stack = (replicate StackSize None)[0 := cs ! unat index], sp = 0\<rparr>"
  have push: "pushStack ?v (cs ! unat index) = (?v', ReturnNil)"
    by (simp add: pushStack_def vm_New_def Let_def StackSize_pos)
  have last: "Run_from enc ?v' (Suc (Suc (Suc 0))) = (?v', ReturnNil)"
    by (subst Run_from.simps) simp
  have "Run_from enc ?v 0 = Run_from enc ?v' (Suc (Suc (Suc 0)))"
    apply (subst Run_from.simps)
    using assms push
    apply (simp add: vm_New_def del: ReadUint16.simps)
    done
  then show ?thesis
    by (simp add: Run_def last)
qed

text \<open>
  Claim C4. On the virtual machine that \<open>New\<close> makes of a program that is one
  constant load of an index \<open>i\<close> of the constant pool, \<open>Run\<close> returns \<open>nil\<close>
  (it is a total function: it terminates) and \<open>StackTop\<close> then returns
  \<open>constants[i]\<close>.
\<close>

theorem Run_single_constant_load:
  assumes "0 \<le> i" and "i < int (length cs)" and "i < 65536"
  shows "snd (Run enc (vm_New \<lparr>Instructions = Make enc OpConstant [i], Constants = cs\<rparr>)) = ReturnNil
    \<and> StackTop (fst (Run enc (vm_New \<lparr>Instructions = Make enc OpConstant [i], Constants = cs\<rparr>)))
        = Inr (cs ! nat i)"
proof -
  have u: "unat (word_of_int i :: 16 word) = nat i"
    using assms by (simp add: unat_eq_nat_uint uint_word_of_int take_bit_eq_mod)
  have r: "ReadUint16 [word_of_int (i div 256), word_of_int i] = Some (word_of_int i)"
    using ReadUint16_putOperand [of i "[]"] by (simp add: putOperand_2)
  have n: "unat (word_of_int i :: 16 word) < length cs"
    using assms u by linarith
  show ?thesis
    unfolding Make_OpConstant Run_constant_load [OF r n]
    by (simp add: StackTop_def StackSize_pos u)
qed

theorem Run_single_constant_load_witness:
  "(0::int) \<le> 1 \<and> (1::int) < int (length [Some (10::nat), Some 20]) \<and> (1::int) < 65536
   \<and> snd (Run sample_enc (vm_New \<lparr>Instructions = Make sample_enc OpConstant [1],
              Constants = [Some (10::nat), Some 20]\<rparr>)) = ReturnNil
   \<and> StackTop (fst (Run sample_enc (vm_New \<lparr>Instructions = Make sample_enc OpConstant [1],
              Constants = [Some (10::nat), Some 20]\<rparr>)))
        = Inr (Some 20)"
  using Run_single_constant_load [of 1 "[Some (10::nat), Some 20]" sample_enc]
  by simp

text \<open>
  Claim C5, as stated, fails: the \<open>switch\<close> of \<open>Run\<close> has one case and no default.
  The byte 255 is the code of none of the opcodes in the sample numbering, and on the
  program that is this byte alone \<open>Run\<close> returns \<open>nil\<close>, the machine unchanged.
\<close>

theorem Run_unknown_opcode_counterexample:
  "255 \<notin> set (map sample_enc [OpConstant, OpSetLocal, OpAdd, OpClosure])
   \<and> Run sample_enc (vm_New \<lparr>Instructions = [255], Constants = ([] :: unit Object list)\<rparr>)
       = (vm_New \<lparr>Instructions = [255], Constants = []\<rparr>, ReturnNil)"
  unfolding Run_def vm_New_def
  apply (subst Run_from.simps)
  apply simp
  apply (subst Run_from.simps)
  apply simp
  done

text \<open>
  Claim C5, amended. When the loop of \<open>Run\<close> fetches a byte that is not the code of
  \<open>OpConstant\<close>, no fault is raised for it: the byte is skipped and the run goes on
  at the next byte, the machine unchanged.
\<close>

theorem Run_from_skips_other_bytes:
  assumes "ip < length (instructions v)" and "instructions v ! ip \<noteq> enc OpConstant"
  shows "Run_from enc v ip = Run_from enc v (ip + 1)"
  using assms by (subst Run_from.simps) simp

theorem Run_from_skips_other_bytes_witness:
  "0 < length (instructions (vm_New \<lparr>Instructions = [255], Constants = ([] :: unit Object list)\<rparr>))
   \<and> instructions (vm_New \<lparr>Instructions = [255], Constants = ([] :: unit Object list)\<rparr>) ! 0
       \<noteq> sample_enc OpConstant
   \<and> Run_from sample_enc (vm_New \<lparr>Instructions = [255], Constants = ([] :: unit Object list)\<rparr>) 0
      = Run_from sample_enc (vm_New \<lparr>Instructions = [255], Constants = ([] :: unit Object list)\<rparr>) (0 + 1)"
  using Run_from_skips_other_bytes
    [of 0 "vm_New \<lparr>Instructions = [255], Constants = ([] :: unit Object list)\<rparr>" sample_enc]
  by (simp add: vm_New_def)


section \<open>The parser\<close>

subsection \<open>The states of the parser and the dispatch tables\<close>

lemma fold_upd:
  "fold (\<lambda>tk m. m(tk \<mapsto> v)) ts m0 k = (if k \<in> set ts then Some v else m0 k)"
  by (induction ts arbitrary: m0) auto

lemma currentToken_at [simp]: "currentToken (parser_at E cur nxt lx) = cur"
  and peekToken_at [simp]: "peekToken (parser_at E cur nxt lx) = nxt"
  by (simp_all add: parser_at_def)

lemma prefixFns_at:
  "prefixFns (parser_at E cur nxt lx) ty =
     (if ty \<in> set (GetPrefixOperators E) then Some Fn_parsePrefix
      else (Map.empty
            (IDENT \<mapsto> Fn_parseIdentifier,
             INT_T \<mapsto> Fn_parseInteger,
             TRUE \<mapsto> Fn_parseBoolean,
             FALSE \<mapsto> Fn_parseBoolean,
             STRING \<mapsto> Fn_parseString,
             IF \<mapsto> Fn_parseIfExpression,
             FUNCTION \<mapsto> Fn_parseFunction,
             LBRACKET \<mapsto> Fn_parseArrayLiteral,
             LBRACE \<mapsto> Fn_parseHashLiteral,
             LPAREN \<mapsto> Fn_parseGroupedExpression)) ty)"
  by (simp add: parser_at_def parser_New_def fold_upd)

lemma infixFns_at:
  "infixFns (parser_at E cur nxt lx) ty =
     (if ty \<in> set (GetPostfixOperators E) then Some Fn_parsePostfix
      else if ty \<in> set (GetInfixOperators E) then Some Fn_parseInfix
      else (Map.empty
              (LPAREN \<mapsto> Fn_parseCallExpression,
               LBRACKET \<mapsto> Fn_parseIndexExpression)) ty)"
  by (simp add: parser_at_def parser_New_def fold_upd)

lemma nextToken_at_Cons [simp]:
  "nextToken (parser_at E cur nxt (lexer_of (t # ts) ln col))
     = Done nxt (parser_at E nxt t (lexer_of ts ln col))"
  by (simp add: nextToken_def NextToken_def parser_at_def parser_New_def lexer_of_def)

lemma nextToken_at_Nil [simp]:
  "nextToken (parser_at E cur nxt (lexer_of [] ln col))
     = Done nxt (parser_at E nxt (eof_at ln col) (lexer_of [] ln col))"
  by (simp add: nextToken_def NextToken_def parser_at_def parser_New_def lexer_of_def eof_at_def)

lemma ParseProgram_body_start2:
  "ParseProgram_body n E (parser_New E (lexer_of (a # b # ts) ln col))
     = andThen (ParseProgram_loop n (parseExpression n E) E [] (parser_at E a b (lexer_of ts ln col)))
         (\<lambda>statements p. Done \<lparr>Statements = statements\<rparr> p)"
  by (simp add: ParseProgram_body_def nextToken_def NextToken_def parser_at_def parser_New_def
      lexer_of_def)


lemma Type_eof_at [simp]: "Type (eof_at ln col) = EOF"
  by (simp add: eof_at_def)

lemma parseExpression_loop_done:
  assumes "Type nxt = SEMICOLON \<or> \<not> prec < Precedence E nxt
           \<or> infixFns (parser_at E cur nxt lx) (Type nxt) = None"
  shows "parseExpression_loop (Suc n) pe E prec left (parser_at E cur nxt lx)
           = Done left (parser_at E cur nxt lx)"
  using assms by (auto simp: peekTokenTypeIs_def peekTokenPrecedence_def)

lemma operandNode_cases:
  assumes "operandNode E t \<noteq> None"
  obtains "Type t = IDENT" "operandNode E t = Some (IdentifierExpr (Identifier t (Literal t)))"
  | v where "Type t = INT_T" "ParseInt E (Literal t) = Some v" "operandNode E t = Some (Integer t v)"
  using assms by (auto simp: operandNode_def split: if_splits)

lemma parseExpression_operand:
  assumes "operandNode E cur \<noteq> None" and "plainTables E"
  shows "parseExpression (Suc n) E prec (parser_at E cur nxt lx)
           = parseExpression_loop n (parseExpression n E) E prec (the (operandNode E cur))
               (parser_at E cur nxt lx)"
  using assms(1)
proof (cases rule: operandNode_cases)
  case 1
  then show ?thesis
    using assms(2)
    by (simp add: prefixFns_at plainTables_def parseIdentifier_def del: parseExpression_loop.simps)
next
  case (2 v)
  then show ?thesis
    using assms(2)
    by (simp add: prefixFns_at plainTables_def parseInteger_def del: parseExpression_loop.simps)
qed

lemma parseExpression_loop_infix:
  assumes "binaryOperator E nxt" and "prec < Precedence E nxt"
  shows "parseExpression_loop (Suc n) pe E prec left (parser_at E cur nxt lx)
           = andThen (nextToken (parser_at E cur nxt lx)) (\<lambda>_ p.
             andThen (parseInfix pe E left p) (\<lambda>left p.
             parseExpression_loop n pe E prec left p))"
  using assms
  by (simp add: binaryOperator_def peekTokenTypeIs_def peekTokenPrecedence_def infixFns_at)

lemma operand_not_keyword:
  assumes "operandNode E t \<noteq> None"
  shows "Type t \<noteq> EOF" "Type t \<noteq> LET" "Type t \<noteq> RETURN"
    "Type t \<noteq> RBRACE" "Type t \<noteq> RPAREN" "Type t \<noteq> RBRACKET"
    "Type t \<noteq> COMMA" "Type t \<noteq> COLON" "Type t \<noteq> SEMICOLON"
    "Type t \<noteq> LBRACE" "Type t \<noteq> LPAREN" "Type t \<noteq> LBRACKET"
    "Type t \<noteq> FUNCTION" "Type t \<noteq> IF" "Type t \<noteq> ELSE" "Type t \<noteq> ASSIGN"
  using assms by (auto simp: operandNode_def split: if_splits)

lemma infixFns_at_plain:
  assumes "plainTables E"
  shows "infixFns (parser_at E cur nxt lx) EOF = None"
    and "infixFns (parser_at E cur nxt lx) IDENT = None"
    and "infixFns (parser_at E cur nxt lx) INT_T = None"
    and "infixFns (parser_at E cur nxt lx) RPAREN = None"
    and "infixFns (parser_at E cur nxt lx) RBRACKET = None"
    and "infixFns (parser_at E cur nxt lx) RBRACE = None"
    and "infixFns (parser_at E cur nxt lx) COMMA = None"
    and "infixFns (parser_at E cur nxt lx) COLON = None"
  using assms by (simp_all add: infixFns_at plainTables_def)

lemma infixFns_at_operand:
  assumes "plainTables E" and "operandNode E t \<noteq> None"
  shows "infixFns (parser_at E cur nxt lx) (Type t) = None"
  using assms(2)
  by (cases rule: operandNode_cases) (simp_all add: infixFns_at_plain [OF assms(1)])

lemma parseExpression_prefix:
  assumes "prefixOperator E cur"
  shows "parseExpression (Suc n) E prec (parser_at E cur nxt lx)
           = andThen (parsePrefix (parseExpression n E) E (parser_at E cur nxt lx)) (\<lambda>left p.
               parseExpression_loop n (parseExpression n E) E prec left p)"
  using assms by (simp add: prefixOperator_def prefixFns_at)

lemma parseExpression_FUNCTION:
  assumes "plainTables E" and "Type cur = FUNCTION"
  shows "parseExpression (Suc n) E prec (parser_at E cur nxt lx)
           = andThen (parseFunction n (parseExpression n E) E (parser_at E cur nxt lx)) (\<lambda>left p.
               parseExpression_loop n (parseExpression n E) E prec left p)"
  using assms by (simp add: plainTables_def prefixFns_at)

lemma parseExpression_LBRACKET:
  assumes "plainTables E" and "Type cur = LBRACKET"
  shows "parseExpression (Suc n) E prec (parser_at E cur nxt lx)
           = andThen (parseArrayLiteral n (parseExpression n E) E (parser_at E cur nxt lx)) (\<lambda>left p.
               parseExpression_loop n (parseExpression n E) E prec left p)"
  using assms by (simp add: plainTables_def prefixFns_at)

lemma parseExpression_LBRACE:
  assumes "plainTables E" and "Type cur = LBRACE"
  shows "parseExpression (Suc n) E prec (parser_at E cur nxt lx)
           = andThen (parseHashLiteral n (parseExpression n E) E (parser_at E cur nxt lx)) (\<lambda>left p.
               parseExpression_loop n (parseExpression n E) E prec left p)"
  using assms by (simp add: plainTables_def prefixFns_at)

lemma parseExpression_loop_call:
  assumes "callParen E nxt" and "prec < Precedence E nxt"
  shows "parseExpression_loop (Suc n) pe E prec left (parser_at E cur nxt lx)
           = andThen (nextToken (parser_at E cur nxt lx)) (\<lambda>_ p.
             andThen (parseCallExpression n pe E left p) (\<lambda>left p.
             parseExpression_loop n pe E prec left p))"
  using assms
  by (simp add: callParen_def peekTokenTypeIs_def peekTokenPrecedence_def infixFns_at)


lemmas exec_core =
  ParseProgram_def ParseProgram_body_start2 currentTokenTypeIs_def peekTokenTypeIs_def
  nextTokenTypeIs_def
  parseStatement_def parseExpressionStatement_def parseLetStatement_def parseReturnStatement_def
  Let_def whenDo_def
  parseExpression_operand parseExpression_prefix parseExpression_FUNCTION
  parseExpression_LBRACKET parseExpression_LBRACE
  parseExpression_loop_infix parseExpression_loop_call parseExpression_loop_done
  parseInfix_def parsePrefix_def currentTokenPrecedence_def
  assertTokenType_def assertNextTokenType_def assertCurrentTokenType_def
  infixFns_at_plain infixFns_at_operand
  expressionProgram_def

lemmas exec =
  exec_core
  parseFunction_def parseParameters_def parseBlockExpression_def parseArrayLiteral_def
  parseHashLiteral_def parseCallExpression_def

lemma fuel_9: "9 \<le> n \<Longrightarrow> \<exists>k. n = Suc (Suc (Suc (Suc (Suc (Suc (Suc (Suc (Suc k))))))))"
  by presburger

lemma fuel_12: "12 \<le> n \<Longrightarrow> \<exists>k. n = Suc (Suc (Suc (Suc (Suc (Suc (Suc (Suc (Suc (Suc (Suc (Suc k)))))))))))"
  by presburger


lemma digits_0: "digits 0 = ''0''"
  by (subst digits.simps) simp

lemma fmt_d_0: "fmt_d 0 = ''0''"
  by (simp add: fmt_d_def digits_0)

lemma currentToken_stream [simp]: "currentToken (stream_at E (t # ts) ln col) = t"
  by (cases ts) simp_all

lemma peekToken_stream [simp]: "peekToken (stream_at E (t # u # ts) ln col) = u"
  by simp

lemma nextToken_stream:
  "nextToken (stream_at E (t # u # ts) ln col) = Done u (stream_at E (u # ts) ln col)"
  by (cases ts) simp_all

lemma ParseProgram_body_start:
  "ParseProgram_body n E (parser_New E (lexer_of ts ln col))
     = andThen (ParseProgram_loop n (parseExpression n E) E [] (stream_at E ts ln col))
         (\<lambda>statements p. Done \<lparr>Statements = statements\<rparr> p)"
proof (cases ts)
  case Nil
  then show ?thesis
    by (simp add: ParseProgram_body_def nextToken_def NextToken_def parser_at_def parser_New_def
        lexer_of_def eof_at_def)
next
  case (Cons a ts')
  then show ?thesis
    by (cases ts')
       (simp_all add: ParseProgram_body_def nextToken_def NextToken_def parser_at_def
          parser_New_def lexer_of_def eof_at_def)
qed

text \<open>
  The integer literals of the examples, and some that show the bases, the sign, the
  underscores and the range of \<open>strconv.ParseInt\<close>.
\<close>

lemmas strconv_defs =
  strconv_ParseInt_def ParseUint_def Let_def lower_def maxUint64_def underscoreOK_def

lemma strconv_ParseInt_digit [simp]:
  "strconv_ParseInt ''1'' = Some 1" "strconv_ParseInt ''2'' = Some 2"
  "strconv_ParseInt ''3'' = Some 3" "strconv_ParseInt ''5'' = Some 5"
  by (simp_all add: strconv_defs)

lemma strconv_ParseInt_examples:
  "strconv_ParseInt ''010'' = Some 8" "strconv_ParseInt ''0x1F'' = Some 31"
  "strconv_ParseInt ''0b101'' = Some 5" "strconv_ParseInt ''0o17'' = Some 15"
  "strconv_ParseInt ''-5'' = Some (- 5)" "strconv_ParseInt ''1_000'' = Some 1000"
  "strconv_ParseInt ''9223372036854775807'' = Some 9223372036854775807"
  "strconv_ParseInt ''9223372036854775808'' = None"
  "strconv_ParseInt ''-9223372036854775808'' = Some (- 9223372036854775808)"
  "strconv_ParseInt [] = None" "strconv_ParseInt ''12a'' = None"
  "strconv_ParseInt ''1__0'' = None" "strconv_ParseInt ''0x'' = None"
  by (simp_all add: strconv_defs)

lemmas sample_defs =
  sample_Deps_def tk_def PLUS_def MINUS_def ASTERISK_def BANG_def

lemma sample_fields:
  "Precedence sample_Deps = sample_Precedence"
  "LOWEST_PRECEDENCE sample_Deps = 0"
  "GetPrefixOperators sample_Deps = [MINUS, BANG]"
  "GetInfixOperators sample_Deps = [PLUS, MINUS, ASTERISK]"
  "GetPostfixOperators sample_Deps = []"
  "ParseInt sample_Deps = strconv_ParseInt"
  by (simp_all add: sample_Deps_def)

lemma plainTables_sample: "plainTables sample_Deps"
  by (simp add: plainTables_def sample_defs)

subsection \<open>Precedence\<close>

lemma higher_binds_first:
  assumes E: "plainTables E"
    and a: "operandNode E a = Some ea" and b: "operandNode E b = Some eb"
    and c: "operandNode E c = Some ec"
    and o1: "binaryOperator E o1" and o2: "binaryOperator E o2"
    and lt: "Precedence E o1 < Precedence E o2"
  shows "ParseProgram (Suc (Suc (Suc (Suc (Suc (Suc (Suc (Suc (Suc k))))))))) E (parser_New E (lexer_of [a, o1, b, o2, c] ln col))
    = expressionProgram a
        (InfixExpression o1 ea (Literal o1) (InfixExpression o2 eb (Literal o2) ec))"
  using assms operand_not_keyword [of E a]
  by (simp add: exec binaryOperator_def
      del: parseExpression.simps parseExpression_loop.simps)

lemma equal_folds_left:
  assumes E: "plainTables E"
    and a: "operandNode E a = Some ea" and b: "operandNode E b = Some eb"
    and c: "operandNode E c = Some ec"
    and o1: "binaryOperator E o1" and o2: "binaryOperator E o2"
    and lt: "Precedence E o2 \<le> Precedence E o1"
  shows "ParseProgram (Suc (Suc (Suc (Suc (Suc (Suc (Suc (Suc (Suc k))))))))) E (parser_New E (lexer_of [a, o1, b, o2, c] ln col))
    = expressionProgram a
        (InfixExpression o2 (InfixExpression o1 ea (Literal o1) eb) (Literal o2) ec)"
  using assms operand_not_keyword [of E a]
  by (simp add: exec binaryOperator_def
      del: parseExpression.simps parseExpression_loop.simps)

lemma prefix_binds_operand:
  assumes E: "plainTables E"
    and a: "operandNode E a = Some ea" and b: "operandNode E b = Some eb"
    and m: "prefixOperator E m" and o: "binaryOperator E o1"
    and le: "Precedence E o1 \<le> Precedence E m"
  shows "ParseProgram (Suc (Suc (Suc (Suc (Suc (Suc (Suc (Suc (Suc k))))))))) E (parser_New E (lexer_of [m, a, o1, b] ln col))
    = expressionProgram m
        (InfixExpression o1 (PrefixExpression m (Literal m) ea) (Literal o1) eb)"
  using assms
  by (simp add: exec binaryOperator_def prefixOperator_def
      del: parseExpression.simps parseExpression_loop.simps)



text \<open>
  The three shapes above, for readings of any length and depth. The induction is on the
  reading: \<open>parseExpression\<close> on the tokens of a reading \<open>t\<close>, whatever follows,
  comes to the turn of its loop where the node of \<open>t\<close> is the left operand and the
  token after \<open>t\<close> is the lookahead, provided that this token stops the calls still
  open inside \<open>t\<close>.
\<close>

lemma stream_at_Cons:
  "stream_at E (x # R) ln col = parser_at E x (lookahead R ln col) (lexer_of (tl R) ln col)"
  by (cases R) (simp_all add: lookahead_def)

lemma tokens_nonempty: "tokens t \<noteq> []"
  by (cases t) simp_all

lemma spine_less_nodes: "spine t < nodes t"
  by (induction t) simp_all

lemma loop_done_stream:
  assumes "stopsAt E q (lookahead R ln col)"
  shows "parseExpression_loop (Suc n) pe E q left (stream_at E (x # R) ln col)
           = Done left (stream_at E (x # R) ln col)"
  unfolding stream_at_Cons
  by (rule parseExpression_loop_done) (use assms in \<open>auto simp: stopsAt_def infixFns_at\<close>)

lemma closes_of_rightAtLeast:
  "rightAtLeast E (Precedence E u) t \<Longrightarrow> closes E t u"
  by (induction t) (auto simp: stopsAt_def)

lemma closes_hard:
  assumes "Type u \<notin> set (GetPostfixOperators E)" "Type u \<notin> set (GetInfixOperators E)"
    "Type u \<noteq> LPAREN" "Type u \<noteq> LBRACKET"
  shows "closes E t u"
  using assms by (induction t) (auto simp: stopsAt_def)

lemma leftAbove_lowest:
  "wellFormed E t \<Longrightarrow> leftAbove E (LOWEST_PRECEDENCE E) t"
  by (induction t) (auto simp: binaryOperator_def)

lemma parseExpression_group:
  assumes "Type cur = LPAREN" and "LPAREN \<notin> set (GetPrefixOperators E)"
  shows "parseExpression (Suc n) E prec (parser_at E cur nxt lx)
           = andThen (parseGroupedExpression (parseExpression n E) E (parser_at E cur nxt lx)) (\<lambda>left p.
               parseExpression_loop n (parseExpression n E) E prec left p)"
  using assms by (simp add: prefixFns_at)

lemma first_token:
  assumes "wellFormed E t"
  shows "Type (hd (tokens t)) \<noteq> EOF \<and> Type (hd (tokens t)) \<noteq> LET
         \<and> Type (hd (tokens t)) \<noteq> RETURN"
  using assms
proof (induction t)
  case (Operand x)
  then show ?case using operand_not_keyword [of E x] by simp
next
  case (Binary l opr r)
  then show ?case using tokens_nonempty [of l] by simp
qed (auto simp: prefixOperator_def)

lemma parse_reading:
  assumes E: "plainTables E"
  shows "wellFormed E t \<Longrightarrow> respectsPrecedence E t \<Longrightarrow> leftAbove E p t
    \<Longrightarrow> closes E t (lookahead R ln col) \<Longrightarrow> nodes t \<le> n
    \<Longrightarrow> parseExpression (Suc n) E p (stream_at E (tokens t @ R) ln col)
         = parseExpression_loop (n - spine t) (parseExpression n E) E p (node E t)
             (stream_at E (last (tokens t) # R) ln col)"
proof (induction t arbitrary: p n R)
  case (Operand x)
  then show ?case
    by (simp add: stream_at_Cons parseExpression_operand [OF _ E]
        del: parseExpression.simps stream_at.simps)
next
  case (Group lp t rp)
  obtain h tl' where ht: "tokens t = h # tl'"
    using tokens_nonempty [of t] by (cases "tokens t") auto
  obtain n' where n: "n = Suc n'" and n': "nodes t \<le> n'"
    using Group.prems(5) by (cases n) auto
  obtain k where k: "n' - spine t = Suc k"
    using spine_less_nodes [of t] n' by (cases "n' - spine t") auto
  have wf: "wellFormed E t" and rs: "respectsPrecedence E t"
    and lp: "Type lp = LPAREN" "LPAREN \<notin> set (GetPrefixOperators E)" and rp: "Type rp = RPAREN"
    using Group.prems by auto
  have cl: "closes E t (lookahead (rp # R) ln col)"
    using rp E by (intro closes_hard) (auto simp: lookahead_def plainTables_def)
  have st: "stopsAt E (LOWEST_PRECEDENCE E) (lookahead (rp # R) ln col)"
    using rp E by (auto simp: lookahead_def plainTables_def stopsAt_def)
  have inner: "parseExpression (Suc n') E (LOWEST_PRECEDENCE E) (stream_at E (tokens t @ rp # R) ln col)
         = Done (node E t) (stream_at E (last (tokens t) # rp # R) ln col)"
    using Group.IH [OF wf rs leftAbove_lowest [OF wf] cl n']
    by (simp only: k loop_done_stream [OF st])
  have s1: "stream_at E (tokens (Group lp t rp) @ R) ln col
              = parser_at E lp h (lexer_of (tl' @ rp # R) ln col)"
    by (simp add: ht)
  have nx: "nextToken (parser_at E lp h (lexer_of (tl' @ rp # R) ln col))
              = Done h (stream_at E (tokens t @ rp # R) ln col)"
    using nextToken_stream [of E lp h "tl' @ rp # R" ln col] by (simp add: ht)
  show ?case
    unfolding s1 n
    using lp rp inner nx
    by (simp add: parseExpression_group parseGroupedExpression_def assertCurrentTokenType_def
        assertNextTokenType_def assertTokenType_def nextToken_stream
        del: parseExpression.simps parseExpression_loop.simps stream_at.simps)
next
  case (Prefixed m t)
  obtain h tl' where ht: "tokens t = h # tl'"
    using tokens_nonempty [of t] by (cases "tokens t") auto
  obtain n' where n: "n = Suc n'" and n': "nodes t \<le> n'"
    using Prefixed.prems(5) by (cases n) auto
  obtain k where k: "n' - spine t = Suc k"
    using spine_less_nodes [of t] n' by (cases "n' - spine t") auto
  have wf: "wellFormed E t" and rs: "respectsPrecedence E t" and m: "prefixOperator E m"
    and la: "leftAbove E (Precedence E m) t"
    and cl: "closes E t (lookahead R ln col)"
    and st: "stopsAt E (Precedence E m) (lookahead R ln col)"
    using Prefixed.prems by auto
  have inner: "parseExpression (Suc n') E (Precedence E m) (stream_at E (tokens t @ R) ln col)
         = Done (node E t) (stream_at E (last (tokens t) # R) ln col)"
    using Prefixed.IH [OF wf rs la cl n']
    by (simp only: k loop_done_stream [OF st])
  have s1: "stream_at E (tokens (Prefixed m t) @ R) ln col
              = parser_at E m h (lexer_of (tl' @ R) ln col)"
    by (simp add: ht)
  have nx: "nextToken (parser_at E m h (lexer_of (tl' @ R) ln col))
              = Done h (stream_at E (tokens t @ R) ln col)"
    using nextToken_stream [of E m h "tl' @ R" ln col] by (simp add: ht)
  have lst: "last (tokens (Prefixed m t)) = last (tokens t)"
    by (simp add: ht)
  show ?case
    unfolding s1 n lst
    using m inner nx
    by (simp add: parseExpression_prefix parsePrefix_def currentTokenPrecedence_def Let_def
        del: parseExpression.simps parseExpression_loop.simps stream_at.simps)
next
  case (Binary l opr r)
  obtain h tl' where hr: "tokens r = h # tl'"
    using tokens_nonempty [of r] by (cases "tokens r") auto
  obtain n' where n: "n = Suc n'" and nr: "nodes r \<le> n'" and nl: "nodes l \<le> n"
    using Binary.prems(5) by (cases n) auto
  obtain k where k: "n' - spine r = Suc k"
    using spine_less_nodes [of r] nr by (cases "n' - spine r") auto
  have m: "n - spine l = Suc (n - spine (Binary l opr r))"
    using spine_less_nodes [of l] nl by simp
  have wfl: "wellFormed E l" and rsl: "respectsPrecedence E l"
    and wfr: "wellFormed E r" and rsr: "respectsPrecedence E r"
    and opr: "binaryOperator E opr" and lt: "p < Precedence E opr"
    and lal: "leftAbove E p l" and lar: "leftAbove E (Precedence E opr) r"
    and ral: "rightAtLeast E (Precedence E opr) l"
    and clr: "closes E r (lookahead R ln col)"
    and st: "stopsAt E (Precedence E opr) (lookahead R ln col)"
    using Binary.prems by auto
  have cll: "closes E l (lookahead (opr # tokens r @ R) ln col)"
    using closes_of_rightAtLeast [OF ral] by (simp add: lookahead_def)
  have left: "parseExpression (Suc n) E p (stream_at E (tokens l @ opr # tokens r @ R) ln col)
         = parseExpression_loop (Suc (n - spine (Binary l opr r))) (parseExpression n E) E p (node E l)
             (parser_at E (last (tokens l)) opr (lexer_of (tokens r @ R) ln col))"
    using Binary.IH(1) [OF wfl rsl lal cll nl]
    by (simp only: m) (simp add: hr)
  have inner: "parseExpression n E (Precedence E opr) (stream_at E (tokens r @ R) ln col)
         = Done (node E r) (stream_at E (last (tokens r) # R) ln col)"
    unfolding n
    using Binary.IH(2) [OF wfr rsr lar clr nr]
    by (simp only: k loop_done_stream [OF st])
  have nx1: "nextToken (parser_at E (last (tokens l)) opr (lexer_of (tokens r @ R) ln col))
              = Done opr (parser_at E opr h (lexer_of (tl' @ R) ln col))"
    by (simp add: hr)
  have nx2: "nextToken (parser_at E opr h (lexer_of (tl' @ R) ln col))
              = Done h (stream_at E (tokens r @ R) ln col)"
    using nextToken_stream [of E opr h "tl' @ R" ln col] by (simp add: hr)
  have lst: "last (tokens (Binary l opr r)) = last (tokens r)"
    by (simp add: hr)
  have app: "tokens (Binary l opr r) @ R = tokens l @ opr # tokens r @ R"
    by simp
  show ?case
    unfolding app left lst
    using inner nx1 nx2
    by (simp add: parseExpression_loop_infix [OF opr lt] parseInfix_def
        currentTokenPrecedence_def Let_def
        del: parseExpression.simps parseExpression_loop.simps stream_at.simps nextToken_at_Cons)
qed

lemma ParseProgram_reading:
  assumes E: "plainTables E" and wf: "wellFormed E t" and rs: "respectsPrecedence E t"
    and fuel: "nodes t + 1 \<le> n"
  shows "ParseProgram n E (parser_New E (lexer_of (tokens t) ln col))
           = expressionProgram (hd (tokens t)) (node E t)"
proof -
  obtain n1 where n: "n = Suc n1" and n1: "nodes t \<le> n1"
    using fuel by (cases n) auto
  obtain k where k: "n1 - spine t = Suc k"
    using spine_less_nodes [of t] n1 by (cases "n1 - spine t") auto
  obtain j where j: "n1 = Suc j"
    using n1 spine_less_nodes [of t] by (cases n1) auto
  obtain h tl' where ht: "tokens t = h # tl'"
    using tokens_nonempty [of t] by (cases "tokens t") auto
  have cl: "closes E t (lookahead [] ln col)"
    using E by (intro closes_hard) (auto simp: lookahead_def plainTables_def)
  have st: "stopsAt E (LOWEST_PRECEDENCE E) (lookahead [] ln col)"
    using E by (auto simp: lookahead_def plainTables_def stopsAt_def)
  have expr: "parseExpression (Suc n1) E (LOWEST_PRECEDENCE E) (stream_at E (tokens t) ln col)
         = Done (node E t) (parser_at E (last (tokens t)) (eof_at ln col) (lexer_of [] ln col))"
    using parse_reading [OF E wf rs leftAbove_lowest [OF wf] cl n1]
    by (simp only: k loop_done_stream [OF st] append_Nil2) simp
  have cur: "currentToken (stream_at E (tokens t) ln col) = h"
    by (simp add: ht)
  show ?thesis
    unfolding ParseProgram_def ParseProgram_body_start n
    using first_token [OF wf] expr cur
    by (simp add: ht j currentTokenTypeIs_def peekTokenTypeIs_def parseStatement_def
        parseExpressionStatement_def Let_def whenDo_def expressionProgram_def
        del: parseExpression.simps parseExpression_loop.simps stream_at.simps)
qed

text \<open>
  Every chain of operands and binary operators has a reading that is well formed and
  respects precedence, the one that \<open>reading\<close> builds.
\<close>

lemma tokens_attach: "tokens (attach E t opr x) = tokens t @ opr # tokens x"
  by (induction t) simp_all

lemma tokens_reading: "tokens (reading E x0 ops) = chain x0 ops"
  unfolding reading_def chain_def
  by (induction ops arbitrary: x0) (auto simp: tokens_attach)

lemma nodes_attach: "nodes (attach E t opr x) = Suc (nodes t + nodes x)"
  by (induction t) simp_all

lemma nodes_reading:
  "nodes (reading E x0 ops) = nodes x0 + (\<Sum>(opr, x) \<leftarrow> ops. Suc (nodes x))"
  unfolding reading_def
  by (induction ops arbitrary: x0) (auto simp: nodes_attach)

lemma primary_leftAbove: "primary x \<Longrightarrow> leftAbove E q x"
  by (cases x) simp_all

lemma leftAbove_attach:
  assumes "leftAbove E q t" and "q < Precedence E opr \<or> \<not> rightAtLeast E (Precedence E opr) t"
  shows "leftAbove E q (attach E t opr x)"
  using assms by (cases t) auto

lemma wellFormed_attach:
  assumes "wellFormed E t" and "binaryOperator E opr" and "wellFormed E x"
  shows "wellFormed E (attach E t opr x)"
  using assms by (induction t) auto

lemma respects_attach:
  assumes "respectsPrecedence E t" and "respectsPrecedence E x" and "primary x"
  shows "respectsPrecedence E (attach E t opr x)"
  using assms
proof (induction t)
  case (Binary l opr' r)
  show ?case
  proof (cases "rightAtLeast E (Precedence E opr) (Binary l opr' r)")
    case True
    then show ?thesis
      using Binary.prems by (simp add: primary_leftAbove)
  next
    case False
    then have "leftAbove E (Precedence E opr') (attach E r opr x)"
      using Binary.prems(1) by (intro leftAbove_attach) auto
    then show ?thesis
      using False Binary by auto
  qed
next
  case (Prefixed m t)
  show ?case
  proof (cases "rightAtLeast E (Precedence E opr) (Prefixed m t)")
    case True
    then show ?thesis
      using Prefixed.prems by (simp add: primary_leftAbove)
  next
    case False
    then have "leftAbove E (Precedence E m) (attach E t opr x)"
      using Prefixed.prems(1) by (intro leftAbove_attach) auto
    then show ?thesis
      using False Prefixed by auto
  qed
qed (simp_all add: primary_leftAbove)

lemma reading_wellFormed:
  assumes "wellFormed E x0"
    and "\<forall>(opr, x) \<in> set ops. binaryOperator E opr \<and> wellFormed E x"
  shows "wellFormed E (reading E x0 ops)"
  using assms unfolding reading_def
  by (induction ops arbitrary: x0) (auto simp: wellFormed_attach)

lemma reading_respects:
  assumes "respectsPrecedence E x0"
    and "\<forall>(opr, x) \<in> set ops. primary x \<and> respectsPrecedence E x"
  shows "respectsPrecedence E (reading E x0 ops)"
  using assms unfolding reading_def
  by (induction ops arbitrary: x0) (auto simp: respects_attach)

lemma hd_chain: "hd (chain x0 ops) = hd (tokens x0)"
  using tokens_nonempty [of x0] by (simp add: chain_def)

text \<open>
  A reading that respects precedence is the only one of its input, as far as the node
  goes: two such readings of the same tokens stand for the same node.
\<close>

lemma respecting_reading_unique:
  assumes "plainTables E"
    and "wellFormed E t" and "respectsPrecedence E t"
    and "wellFormed E t'" and "respectsPrecedence E t'"
    and "tokens t' = tokens t"
  shows "node E t' = node E t"
proof -
  define n where "n = nodes t + nodes t' + 1"
  have "ParseProgram n E (parser_New E (lexer_of (tokens t) 0 0))
          = expressionProgram (hd (tokens t)) (node E t)"
    by (rule ParseProgram_reading [OF assms(1-3)]) (simp add: n_def)
  moreover have "ParseProgram n E (parser_New E (lexer_of (tokens t') 0 0))
          = expressionProgram (hd (tokens t')) (node E t')"
    by (rule ParseProgram_reading [OF assms(1) assms(4,5)]) (simp add: n_def)
  ultimately show ?thesis
    using assms(6) by (simp add: expressionProgram_def)
qed

text \<open>
  Claim C1. For every well-formed binary-expression input the parser respects operator
  precedence. The input is a chain of any length: a first operand and then pairs of a
  binary operator and an operand, where an operand is an identifier or an integer
  literal, a parenthesised expression, or a prefix operator before an operand (\<open>x0\<close>
  may be any reading that respects precedence, as the inside of a parenthesis is).
  \<open>ParseProgram\<close> returns the program whose one statement is the node of a reading of
  exactly these tokens, and that reading is well formed and respects the precedences of
  the table. So in \<open>1 + 2 * 3\<close> the product is the right operand of the sum,
  \<open>a + b + c\<close> folds left-to-right, and in \<open>-1 + 2\<close> the negation applies to
  \<open>1\<close> alone. The operand of a prefix operator reaches over the operators of higher
  precedence than the prefix token's own and no further, which is how \<open>parsePrefix\<close>
  calls \<open>parseExpression\<close>; with minus below the product in the table, \<open>-1 * 2\<close>
  is the negation of the product. With no operator after \<open>x0\<close> the statement is
  that of \<open>ParseProgram_reading\<close>: the parser returns the node of every reading that
  respects precedence. The precedence table and the lists of operators of package
  \<open>token\<close> are parameters. Enough fuel gives the result: one more than the number of
  nodes of the reading.
\<close>

theorem parseExpression_respects_precedence:
  assumes "plainTables E" and "wellFormed E x0" and "respectsPrecedence E x0"
    and "\<forall>(opr, x) \<in> set ops.
           binaryOperator E opr \<and> primary x \<and> wellFormed E x \<and> respectsPrecedence E x"
    and "nodes x0 + (\<Sum>(opr, x) \<leftarrow> ops. Suc (nodes x)) + 1 \<le> n"
  shows "ParseProgram n E (parser_New E (lexer_of (chain x0 ops) ln col))
           = expressionProgram (hd (tokens x0)) (node E (reading E x0 ops))
         \<and> tokens (reading E x0 ops) = chain x0 ops
         \<and> wellFormed E (reading E x0 ops)
         \<and> respectsPrecedence E (reading E x0 ops)"
proof -
  have wf: "wellFormed E (reading E x0 ops)"
    using assms(2,4) by (intro reading_wellFormed) auto
  have rs: "respectsPrecedence E (reading E x0 ops)"
    using assms(3,4) by (intro reading_respects) auto
  have fuel: "nodes (reading E x0 ops) + 1 \<le> n"
    using assms(5) by (simp add: nodes_reading)
  show ?thesis
    using ParseProgram_reading [OF assms(1) wf rs fuel, of ln col] wf rs
    by (simp add: tokens_reading hd_chain)
qed

theorem parseExpression_respects_precedence_witness:
  "plainTables sample_Deps
   \<and> ParseProgram 9 sample_Deps (parser_New sample_Deps
        (lexer_of [tk INT_T ''1'' 1 1, tk PLUS ''+'' 1 3, tk INT_T ''2'' 1 5,
                   tk ASTERISK ''*'' 1 7, tk INT_T ''3'' 1 9] 1 10))
       = expressionProgram (tk INT_T ''1'' 1 1)
           (InfixExpression (tk PLUS ''+'' 1 3) (Integer (tk INT_T ''1'' 1 1) 1) ''+''
              (InfixExpression (tk ASTERISK ''*'' 1 7) (Integer (tk INT_T ''2'' 1 5) 2) ''*''
                 (Integer (tk INT_T ''3'' 1 9) 3)))
   \<and> ParseProgram 9 sample_Deps (parser_New sample_Deps
        (lexer_of [tk IDENT ''a'' 1 1, tk PLUS ''+'' 1 3, tk IDENT ''b'' 1 5,
                   tk PLUS ''+'' 1 7, tk IDENT ''c'' 1 9] 1 10))
       = expressionProgram (tk IDENT ''a'' 1 1)
           (InfixExpression (tk PLUS ''+'' 1 7)
              (InfixExpression (tk PLUS ''+'' 1 3)
                 (IdentifierExpr (Identifier (tk IDENT ''a'' 1 1) ''a'')) ''+''
                 (IdentifierExpr (Identifier (tk IDENT ''b'' 1 5) ''b''))) ''+''
              (IdentifierExpr (Identifier (tk IDENT ''c'' 1 9) ''c'')))
   \<and> ParseProgram 9 sample_Deps (parser_New sample_Deps
        (lexer_of [tk MINUS ''-'' 1 1, tk INT_T ''1'' 1 2, tk PLUS ''+'' 1 4,
                   tk INT_T ''2'' 1 6] 1 10))
       = expressionProgram (tk MINUS ''-'' 1 1)
           (InfixExpression (tk PLUS ''+'' 1 4)
              (PrefixExpression (tk MINUS ''-'' 1 1) ''-'' (Integer (tk INT_T ''1'' 1 2) 1)) ''+''
              (Integer (tk INT_T ''2'' 1 6) 2))
   \<and> ParseProgram 9 sample_Deps (parser_New sample_Deps
        (lexer_of [tk MINUS ''-'' 1 1, tk INT_T ''1'' 1 2, tk ASTERISK ''*'' 1 4,
                   tk INT_T ''2'' 1 6] 1 10))
       = expressionProgram (tk MINUS ''-'' 1 1)
           (PrefixExpression (tk MINUS ''-'' 1 1) ''-''
              (InfixExpression (tk ASTERISK ''*'' 1 4) (Integer (tk INT_T ''1'' 1 2) 1) ''*''
                 (Integer (tk INT_T ''2'' 1 6) 2)))
   \<and> ParseProgram 9 sample_Deps (parser_New sample_Deps
        (lexer_of [tk LPAREN ''('' 1 1, tk INT_T ''1'' 1 2, tk PLUS ''+'' 1 4,
                   tk INT_T ''2'' 1 6, tk RPAREN '')'' 1 7, tk ASTERISK ''*'' 1 9,
                   tk INT_T ''3'' 1 11] 1 12))
       = expressionProgram (tk LPAREN ''('' 1 1)
           (InfixExpression (tk ASTERISK ''*'' 1 9)
              (InfixExpression (tk PLUS ''+'' 1 4) (Integer (tk INT_T ''1'' 1 2) 1) ''+''
                 (Integer (tk INT_T ''2'' 1 6) 2)) ''*''
              (Integer (tk INT_T ''3'' 1 11) 3))
   \<and> ParseProgram 12 sample_Deps (parser_New sample_Deps
        (lexer_of [tk INT_T ''1'' 1 1, tk ASTERISK ''*'' 1 3, tk INT_T ''2'' 1 5,
                   tk PLUS ''+'' 1 7, tk INT_T ''3'' 1 9, tk ASTERISK ''*'' 1 11,
                   tk INT_T ''5'' 1 13, tk MINUS ''-'' 1 15, tk INT_T ''1'' 1 17] 1 18))
       = expressionProgram (tk INT_T ''1'' 1 1)
           (InfixExpression (tk MINUS ''-'' 1 15)
              (InfixExpression (tk PLUS ''+'' 1 7)
                 (InfixExpression (tk ASTERISK ''*'' 1 3) (Integer (tk INT_T ''1'' 1 1) 1) ''*''
                    (Integer (tk INT_T ''2'' 1 5) 2)) ''+''
                 (InfixExpression (tk ASTERISK ''*'' 1 11) (Integer (tk INT_T ''3'' 1 9) 3) ''*''
                    (Integer (tk INT_T ''5'' 1 13) 5))) ''-''
              (Integer (tk INT_T ''1'' 1 17) 1))"
proof -
  have t: "plainTables sample_Deps"
    by (rule plainTables_sample)
  note defs = operandNode_def binaryOperator_def prefixOperator_def sample_defs
  note w = parseExpression_respects_precedence [OF t, THEN conjunct1]
  have r1: "ParseProgram 9 sample_Deps (parser_New sample_Deps (lexer_of
         (chain (Operand (tk INT_T ''1'' 1 1))
            [(tk PLUS ''+'' 1 3, Operand (tk INT_T ''2'' 1 5)),
             (tk ASTERISK ''*'' 1 7, Operand (tk INT_T ''3'' 1 9))]) 1 10))
       = expressionProgram (hd (tokens (Operand (tk INT_T ''1'' 1 1))))
          (node sample_Deps (reading sample_Deps (Operand (tk INT_T ''1'' 1 1))
            [(tk PLUS ''+'' 1 3, Operand (tk INT_T ''2'' 1 5)),
             (tk ASTERISK ''*'' 1 7, Operand (tk INT_T ''3'' 1 9))]))"
    by (rule w) (simp_all add: defs)
  have r2: "ParseProgram 9 sample_Deps (parser_New sample_Deps (lexer_of
         (chain (Operand (tk IDENT ''a'' 1 1))
            [(tk PLUS ''+'' 1 3, Operand (tk IDENT ''b'' 1 5)),
             (tk PLUS ''+'' 1 7, Operand (tk IDENT ''c'' 1 9))]) 1 10))
       = expressionProgram (hd (tokens (Operand (tk IDENT ''a'' 1 1))))
          (node sample_Deps (reading sample_Deps (Operand (tk IDENT ''a'' 1 1))
            [(tk PLUS ''+'' 1 3, Operand (tk IDENT ''b'' 1 5)),
             (tk PLUS ''+'' 1 7, Operand (tk IDENT ''c'' 1 9))]))"
    by (rule w) (simp_all add: defs)
  have r3: "ParseProgram 9 sample_Deps (parser_New sample_Deps (lexer_of
         (chain (Prefixed (tk MINUS ''-'' 1 1) (Operand (tk INT_T ''1'' 1 2)))
            [(tk PLUS ''+'' 1 4, Operand (tk INT_T ''2'' 1 6))]) 1 10))
       = expressionProgram
          (hd (tokens (Prefixed (tk MINUS ''-'' 1 1) (Operand (tk INT_T ''1'' 1 2)))))
          (node sample_Deps (reading sample_Deps
            (Prefixed (tk MINUS ''-'' 1 1) (Operand (tk INT_T ''1'' 1 2)))
            [(tk PLUS ''+'' 1 4, Operand (tk INT_T ''2'' 1 6))]))"
    by (rule w) (simp_all add: defs)
  have r4: "ParseProgram 9 sample_Deps (parser_New sample_Deps (lexer_of
         (chain (Prefixed (tk MINUS ''-'' 1 1) (Operand (tk INT_T ''1'' 1 2)))
            [(tk ASTERISK ''*'' 1 4, Operand (tk INT_T ''2'' 1 6))]) 1 10))
       = expressionProgram
          (hd (tokens (Prefixed (tk MINUS ''-'' 1 1) (Operand (tk INT_T ''1'' 1 2)))))
          (node sample_Deps (reading sample_Deps
            (Prefixed (tk MINUS ''-'' 1 1) (Operand (tk INT_T ''1'' 1 2)))
            [(tk ASTERISK ''*'' 1 4, Operand (tk INT_T ''2'' 1 6))]))"
    by (rule w) (simp_all add: defs)
  have r5: "ParseProgram 9 sample_Deps (parser_New sample_Deps (lexer_of
         (chain
            (Group (tk LPAREN ''('' 1 1)
               (reading sample_Deps (Operand (tk INT_T ''1'' 1 2))
                  [(tk PLUS ''+'' 1 4, Operand (tk INT_T ''2'' 1 6))])
               (tk RPAREN '')'' 1 7))
            [(tk ASTERISK ''*'' 1 9, Operand (tk INT_T ''3'' 1 11))]) 1 12))
       = expressionProgram
          (hd (tokens
            (Group (tk LPAREN ''('' 1 1)
               (reading sample_Deps (Operand (tk INT_T ''1'' 1 2))
                  [(tk PLUS ''+'' 1 4, Operand (tk INT_T ''2'' 1 6))])
               (tk RPAREN '')'' 1 7))))
          (node sample_Deps (reading sample_Deps
            (Group (tk LPAREN ''('' 1 1)
               (reading sample_Deps (Operand (tk INT_T ''1'' 1 2))
                  [(tk PLUS ''+'' 1 4, Operand (tk INT_T ''2'' 1 6))])
               (tk RPAREN '')'' 1 7))
            [(tk ASTERISK ''*'' 1 9, Operand (tk INT_T ''3'' 1 11))]))"
    by (rule w) (simp_all add: defs reading_def)
  have r6: "ParseProgram 12 sample_Deps (parser_New sample_Deps (lexer_of
         (chain (Operand (tk INT_T ''1'' 1 1))
            [(tk ASTERISK ''*'' 1 3, Operand (tk INT_T ''2'' 1 5)),
             (tk PLUS ''+'' 1 7, Operand (tk INT_T ''3'' 1 9)),
             (tk ASTERISK ''*'' 1 11, Operand (tk INT_T ''5'' 1 13)),
             (tk MINUS ''-'' 1 15, Operand (tk INT_T ''1'' 1 17))]) 1 18))
       = expressionProgram (hd (tokens (Operand (tk INT_T ''1'' 1 1))))
          (node sample_Deps (reading sample_Deps (Operand (tk INT_T ''1'' 1 1))
            [(tk ASTERISK ''*'' 1 3, Operand (tk INT_T ''2'' 1 5)),
             (tk PLUS ''+'' 1 7, Operand (tk INT_T ''3'' 1 9)),
             (tk ASTERISK ''*'' 1 11, Operand (tk INT_T ''5'' 1 13)),
             (tk MINUS ''-'' 1 15, Operand (tk INT_T ''1'' 1 17))]))"
    by (rule w) (simp_all add: defs)
  show ?thesis
    using t r1 r2 r3 r4 r5 r6
    by (simp add: operandNode_def sample_defs chain_def reading_def)
qed


subsection \<open>The name of a function bound by \<open>let\<close>\<close>

lemma let_names_function:
  assumes E: "plainTables E"
    and ty: "Type lt = LET" "Type nm = IDENT" "Type asg = ASSIGN" "Type fn = FUNCTION"
      "Type lp = LPAREN" "Type pa = IDENT" "Type cm = COMMA" "Type pb = IDENT" "Type rp = RPAREN"
      "Type lb = LBRACE" "Type rb = RBRACE" "Type semi = SEMICOLON"
    and x: "operandNode E x = Some ex" and y: "operandNode E y = Some ey"
    and pl: "binaryOperator E pl"
  shows "ParseProgram (Suc (Suc (Suc (Suc (Suc (Suc (Suc (Suc (Suc (Suc (Suc (Suc k)))))))))))) E
      (parser_New E (lexer_of [lt, nm, asg, fn, lp, pa, cm, pb, rp, lb, x, pl, y, rb, semi] ln col))
    = Returns (Some \<lparr>Statements =
        [LetStatement lt (Identifier nm (Literal nm))
          (FunctionExpression fn (Some (Identifier nm (Literal nm)))
             [Identifier pa (Literal pa), Identifier pb (Literal pb)]
             (BlockExpression lb
                [ExpressionStatement x (InfixExpression pl ex (Literal pl) ey)]))]\<rparr>) None"
  using assms operand_not_keyword [of E x]
  by (simp add: exec binaryOperator_def
      del: parseExpression.simps parseExpression_loop.simps)


text \<open>
  Whatever the input: when \<open>parseLetStatement\<close> returns a statement whose value is a
  function node, the name of that node is the identifier that the statement binds.
\<close>

lemma andThen_Done_iff:
  "andThen m f = Done b p' \<longleftrightarrow> (\<exists>a p. m = Done a p \<and> f a p = Done b p')"
  by (cases m) auto

lemma named_function:
  assumes "(case express of
              FunctionExpression ftok fname params body \<Rightarrow> FunctionExpression ftok (Some name) params body
            | _ \<Rightarrow> express) = FunctionExpression ft fn ps b"
  shows "fn = Some name"
  using assms by (cases express) auto

lemma parseLetStatement_names_function:
  assumes "parseLetStatement pe E p = Done (LetStatement t nm (FunctionExpression ft fname ps body)) p'"
  shows "fname = Some nm"
  using assms
  by (auto simp: parseLetStatement_def Let_def andThen_Done_iff dest: named_function)

text \<open>
  Claim C8. For the tokens of \<open>let add = fn(a, b) { a + b };\<close> (any tokens of these
  types, the body any binary expression of two identifiers or integer literals), the
  program is one \<open>LetStatement\<close> whose value is the function node, and the name of
  that node is the identifier that the statement binds. Any fuel of at least 12 gives the
  result.
\<close>

theorem let_gives_function_its_name:
  assumes "plainTables E" and "12 \<le> n"
    and "Type lt = LET" and "Type nm = IDENT" and "Type asg = ASSIGN" and "Type fn = FUNCTION"
    and "Type lp = LPAREN" and "Type pa = IDENT" and "Type cm = COMMA" and "Type pb = IDENT"
    and "Type rp = RPAREN" and "Type lb = LBRACE" and "Type rb = RBRACE"
    and "Type semi = SEMICOLON"
    and "operandNode E x = Some ex" and "operandNode E y = Some ey"
    and "binaryOperator E pl"
  shows "ParseProgram n E
      (parser_New E (lexer_of [lt, nm, asg, fn, lp, pa, cm, pb, rp, lb, x, pl, y, rb, semi] ln col))
    = Returns (Some \<lparr>Statements =
        [LetStatement lt (Identifier nm (Literal nm))
          (FunctionExpression fn (Some (Identifier nm (Literal nm)))
             [Identifier pa (Literal pa), Identifier pb (Literal pb)]
             (BlockExpression lb
                [ExpressionStatement x (InfixExpression pl ex (Literal pl) ey)]))]\<rparr>) None"
proof -
  obtain k where n: "n = Suc (Suc (Suc (Suc (Suc (Suc (Suc (Suc (Suc (Suc (Suc (Suc k)))))))))))"
    using fuel_12 [OF assms(2)] by blast
  show ?thesis
    unfolding n by (rule let_names_function [OF assms(1) assms(3-17)])
qed

theorem let_gives_function_its_name_witness:
  "plainTables sample_Deps
   \<and> ParseProgram 12 sample_Deps (parser_New sample_Deps
        (lexer_of [tk LET ''let'' 1 1, tk IDENT ''add'' 1 5, tk ASSIGN ''='' 1 9,
                   tk FUNCTION ''fn'' 1 11, tk LPAREN ''('' 1 13, tk IDENT ''a'' 1 14,
                   tk COMMA '','' 1 15, tk IDENT ''b'' 1 17, tk RPAREN '')'' 1 18,
                   tk LBRACE ''{'' 1 20, tk IDENT ''a'' 1 22, tk PLUS ''+'' 1 24,
                   tk IDENT ''b'' 1 26, tk RBRACE ''}'' 1 28, tk SEMICOLON '';'' 1 29] 1 30))
     = Returns (Some \<lparr>Statements =
        [LetStatement (tk LET ''let'' 1 1) (Identifier (tk IDENT ''add'' 1 5) ''add'')
          (FunctionExpression (tk FUNCTION ''fn'' 1 11)
             (Some (Identifier (tk IDENT ''add'' 1 5) ''add''))
             [Identifier (tk IDENT ''a'' 1 14) ''a'', Identifier (tk IDENT ''b'' 1 17) ''b'']
             (BlockExpression (tk LBRACE ''{'' 1 20)
                [ExpressionStatement (tk IDENT ''a'' 1 22)
                   (InfixExpression (tk PLUS ''+'' 1 24)
                      (IdentifierExpr (Identifier (tk IDENT ''a'' 1 22) ''a'')) ''+''
                      (IdentifierExpr (Identifier (tk IDENT ''b'' 1 26) ''b'')))]))]\<rparr>) None"
proof -
  have t: "plainTables sample_Deps"
    by (rule plainTables_sample)
  have r: "ParseProgram 12 sample_Deps (parser_New sample_Deps
        (lexer_of [tk LET ''let'' 1 1, tk IDENT ''add'' 1 5, tk ASSIGN ''='' 1 9,
                   tk FUNCTION ''fn'' 1 11, tk LPAREN ''('' 1 13, tk IDENT ''a'' 1 14,
                   tk COMMA '','' 1 15, tk IDENT ''b'' 1 17, tk RPAREN '')'' 1 18,
                   tk LBRACE ''{'' 1 20, tk IDENT ''a'' 1 22, tk PLUS ''+'' 1 24,
                   tk IDENT ''b'' 1 26, tk RBRACE ''}'' 1 28, tk SEMICOLON '';'' 1 29] 1 30))
     = Returns (Some \<lparr>Statements =
        [LetStatement (tk LET ''let'' 1 1)
          (Identifier (tk IDENT ''add'' 1 5) (Literal (tk IDENT ''add'' 1 5)))
          (FunctionExpression (tk FUNCTION ''fn'' 1 11)
             (Some (Identifier (tk IDENT ''add'' 1 5) (Literal (tk IDENT ''add'' 1 5))))
             [Identifier (tk IDENT ''a'' 1 14) (Literal (tk IDENT ''a'' 1 14)),
              Identifier (tk IDENT ''b'' 1 17) (Literal (tk IDENT ''b'' 1 17))]
             (BlockExpression (tk LBRACE ''{'' 1 20)
                [ExpressionStatement (tk IDENT ''a'' 1 22)
                   (InfixExpression (tk PLUS ''+'' 1 24)
                      (IdentifierExpr (Identifier (tk IDENT ''a'' 1 22) ''a''))
                      (Literal (tk PLUS ''+'' 1 24))
                      (IdentifierExpr (Identifier (tk IDENT ''b'' 1 26) ''b'')))]))]\<rparr>) None"
    by (rule let_gives_function_its_name [OF t])
       (simp_all add: operandNode_def binaryOperator_def sample_defs)
  show ?thesis
    using t r by (simp add: tk_def)
qed

subsection \<open>Commas\<close>

text \<open>
  The loops over the elements of a call, of an array literal and of a parameter list, on a
  sequence of elements of any length, each element one token, with or without a comma
  after it.
\<close>

lemma parseExpression_operand_stream:
  assumes "operandNode E t \<noteq> None" and "plainTables E"
    and "infixFns (parser_at E t u (lexer_of ts ln col)) (Type u) = None"
  shows "parseExpression (Suc (Suc n)) E prec (stream_at E (t # u # ts) ln col)
           = Done (the (operandNode E t)) (stream_at E (t # u # ts) ln col)"
  using assms
  by (simp add: parseExpression_operand parseExpression_loop_done
      del: parseExpression.simps parseExpression_loop.simps)

















lemmas run_sample =
  exec plainTables_sample sample_fields tk_def PLUS_def MINUS_def ASTERISK_def BANG_def
  numeral_eq_Suc parseIndexExpression_def parseGroupedExpression_def expectedGot_def
  infixFns_at prefixFns_at peekTokenPrecedence_def operandNode_def

lemma parseExpression_unregistered:
  assumes "prefixFns (parser_at E cur nxt lx) (Type cur) = None"
  shows "parseExpression (Suc n) E prec (parser_at E cur nxt lx)
           = Panic (ParserErrorValue
               \<lparr>errorToken = cur,
                msg = ''can not parse token type '' @ QuoteTokenType E (Type cur),
                pos = zeroPosition\<rparr>)"
  using assms by simp




text \<open>
  The inputs left out above. In \<open>[1]\<close> the token after the element is the closing
  bracket, \<open>parseArrayLiteral\<close> takes it for the end of an empty literal, and the
  element is not in the node.
\<close>

lemma array_of_one_element:
  "ParseProgram 9 sample_Deps (parser_New sample_Deps
      (lexer_of [tk LBRACKET ''['' 1 1, tk INT_T ''1'' 1 2, tk RBRACKET '']'' 1 3] 1 4))
     = expressionProgram (tk LBRACKET ''['' 1 1) (ArrayLiteral (tk LBRACKET ''['' 1 1) [])"
  using plainTables_sample
  by (simp add: exec sample_defs numeral_eq_Suc
      del: parseExpression.simps parseExpression_loop.simps)

text \<open>
  With the comma, \<open>[1,]\<close> is the array of \<open>1\<close>. A comma where an element is
  expected is not skipped by \<open>parseArrayLiteral\<close>: the second comma of \<open>[1,,2]\<close>
  is a syntax fault. \<open>parseParameters\<close> takes any token for a parameter, a comma
  as well: \<open>fn(,a) {}\<close> has two parameters. And a call argument that begins with a
  bracket is taken for an index on the argument before it, like an array element.
\<close>

lemma array_comma_after_one_element:
  "ParseProgram 9 sample_Deps (parser_New sample_Deps
      (lexer_of [tk LBRACKET ''['' 1 1, tk INT_T ''1'' 1 2, tk COMMA '','' 1 3,
                 tk RBRACKET '']'' 1 4] 1 5))
     = expressionProgram (tk LBRACKET ''['' 1 1)
         (ArrayLiteral (tk LBRACKET ''['' 1 1) [Integer (tk INT_T ''1'' 1 2) 1])"
  by (simp add: run_sample del: parseExpression.simps)

lemma array_second_comma_faults:
  "ParseProgram 9 sample_Deps (parser_New sample_Deps
      (lexer_of [tk LBRACKET ''['' 1 1, tk INT_T ''1'' 1 2, tk COMMA '','' 1 3,
                 tk COMMA '','' 1 4, tk INT_T ''2'' 1 5, tk RBRACKET '']'' 1 6] 1 7))
     = Returns None (Some \<lparr>errorToken = tk COMMA '','' 1 4,
          msg = ''can not parse token type '' @ QuoteTokenType sample_Deps COMMA,
          pos = zeroPosition\<rparr>)"
  by (simp add: run_sample parseExpression_unregistered del: parseExpression.simps)

lemma comma_first_is_a_parameter:
  "ParseProgram 9 sample_Deps (parser_New sample_Deps
      (lexer_of [tk FUNCTION ''fn'' 1 1, tk LPAREN ''('' 1 3, tk COMMA '','' 1 4,
                 tk IDENT ''a'' 1 5, tk RPAREN '')'' 1 6, tk LBRACE ''{'' 1 8,
                 tk RBRACE ''}'' 1 9] 1 10))
     = expressionProgram (tk FUNCTION ''fn'' 1 1)
         (FunctionExpression (tk FUNCTION ''fn'' 1 1) None
            [Identifier (tk COMMA '','' 1 4) '','', Identifier (tk IDENT ''a'' 1 5) ''a'']
            (BlockExpression (tk LBRACE ''{'' 1 8) []))"
  by (simp add: run_sample del: parseExpression.simps)

lemma call_argument_taken_as_index:
  "ParseProgram 12 sample_Deps (parser_New sample_Deps
      (lexer_of [tk IDENT ''f'' 1 1, tk LPAREN ''('' 1 2, tk IDENT ''a'' 1 3,
                 tk LBRACKET ''['' 1 5, tk INT_T ''1'' 1 6, tk INT_T ''2'' 1 8,
                 tk RBRACKET '']'' 1 9, tk RPAREN '')'' 1 10] 1 11))
     = Returns None (Some \<lparr>errorToken = tk INT_T ''2'' 1 8,
          msg = ''expectd token type is '' @ QuoteTokenType sample_Deps RBRACKET
                @ '', got '' @ QuoteTokenType sample_Deps INT_T,
          pos = zeroPosition\<rparr>)"
  by (simp add: run_sample del: parseExpression.simps)

subsection \<open>Hash literals\<close>

lemma hash_two_pairs:
  assumes E: "plainTables E"
    and k1: "operandNode E k1 = Some ek1" and v1: "operandNode E v1 = Some ev1"
    and k2: "operandNode E k2 = Some ek2" and v2: "operandNode E v2 = Some ev2"
    and ty: "Type lb = LBRACE" "Type c1 = COLON" "Type c2 = COLON" "Type cm = COMMA"
       "Type rb = RBRACE"
  shows "ParseProgram (Suc (Suc (Suc (Suc (Suc (Suc (Suc (Suc (Suc k))))))))) E
      (parser_New E (lexer_of [lb, k1, c1, v1, cm, k2, c2, v2, rb] ln col))
        = expressionProgram lb (HashLiteral lb {#(ek1, ev1), (ek2, ev2)#})"
  using assms operand_not_keyword [of E k1] operand_not_keyword [of E v1]
    operand_not_keyword [of E k2] operand_not_keyword [of E v2]
  by (simp add: exec
      del: parseExpression.simps parseExpression_loop.simps)


lemma rangeOrder_two: "rangeOrder {#a, b#} [a, b]" "rangeOrder {#a, b#} [b, a]"
  by (simp_all add: rangeOrder_def)

text \<open>
  Claim C9, as stated, fails: \<open>HashLiteral.Pair\<close> is a Go map, not a sequence. The
  node parsed from \<open>{a: 1, b: 2}\<close> holds the two pairs, and a visit of them that
  starts with the pair written last is a possible \<open>range\<close> over it.
\<close>

theorem hash_literal_order_counterexample:
  "ParseProgram 9 sample_Deps (parser_New sample_Deps
      (lexer_of [tk LBRACE ''{'' 1 1, tk IDENT ''a'' 1 2, tk COLON '':'' 1 3, tk INT_T ''1'' 1 5,
                 tk COMMA '','' 1 6, tk IDENT ''b'' 1 8, tk COLON '':'' 1 9, tk INT_T ''2'' 1 11,
                 tk RBRACE ''}'' 1 12] 1 13))
     = expressionProgram (tk LBRACE ''{'' 1 1)
         (HashLiteral (tk LBRACE ''{'' 1 1)
            {#(IdentifierExpr (Identifier (tk IDENT ''a'' 1 2) ''a''), Integer (tk INT_T ''1'' 1 5) 1),
              (IdentifierExpr (Identifier (tk IDENT ''b'' 1 8) ''b''), Integer (tk INT_T ''2'' 1 11) 2)#})
   \<and> rangeOrder
        {#(IdentifierExpr (Identifier (tk IDENT ''a'' 1 2) ''a''), Integer (tk INT_T ''1'' 1 5) 1),
          (IdentifierExpr (Identifier (tk IDENT ''b'' 1 8) ''b''), Integer (tk INT_T ''2'' 1 11) 2)#}
        [(IdentifierExpr (Identifier (tk IDENT ''b'' 1 8) ''b''), Integer (tk INT_T ''2'' 1 11) 2),
         (IdentifierExpr (Identifier (tk IDENT ''a'' 1 2) ''a''), Integer (tk INT_T ''1'' 1 5) 1)]"
proof -
  have "ParseProgram (Suc (Suc (Suc (Suc (Suc (Suc (Suc (Suc (Suc 0))))))))) sample_Deps
     (parser_New sample_Deps
      (lexer_of [tk LBRACE ''{'' 1 1, tk IDENT ''a'' 1 2, tk COLON '':'' 1 3, tk INT_T ''1'' 1 5,
                 tk COMMA '','' 1 6, tk IDENT ''b'' 1 8, tk COLON '':'' 1 9, tk INT_T ''2'' 1 11,
                 tk RBRACE ''}'' 1 12] 1 13))
     = expressionProgram (tk LBRACE ''{'' 1 1)
         (HashLiteral (tk LBRACE ''{'' 1 1)
            {#(IdentifierExpr (Identifier (tk IDENT ''a'' 1 2) (Literal (tk IDENT ''a'' 1 2))),
               Integer (tk INT_T ''1'' 1 5) 1),
              (IdentifierExpr (Identifier (tk IDENT ''b'' 1 8) (Literal (tk IDENT ''b'' 1 8))),
               Integer (tk INT_T ''2'' 1 11) 2)#})"
    by (rule hash_two_pairs [OF plainTables_sample])
       (simp_all add: operandNode_def sample_defs)
  then show ?thesis
    by (simp add: rangeOrder_two tk_def numeral_eq_Suc)
qed

lemma separatedPairs_Cons:
  "separatedPairs cm ((k, cl, v, c) # prs)
     = (if c then k # cl # v # cm # separatedPairs cm prs else k # cl # v # separatedPairs cm prs)"
  by (simp add: separatedPairs_def)

lemma separatedPairs_head:
  assumes "\<forall>(k, cl, v, c) \<in> set prs. operandNode E k \<noteq> None"
  obtains h tl where "separatedPairs cm prs @ cls # rest = h # tl"
    and "operandNode E h \<noteq> None \<or> h = cls"
proof (cases prs)
  case Nil
  then show ?thesis using that [of cls rest] by (simp add: separatedPairs_def)
next
  case (Cons e prs')
  obtain k cl v c where e: "e = (k, cl, v, c)" by (cases e)
  show ?thesis
    using that [of k "tl (separatedPairs cm prs @ cls # rest)"] Cons e assms
    by (auto simp: separatedPairs_Cons)
qed

lemma hash_loop:
  assumes E: "plainTables E" and cm: "Type cm = COMMA" and rb: "Type rb = RBRACE"
    and prs: "\<forall>(k, cl, v, c) \<in> set prs.
                operandNode E k \<noteq> None \<and> Type cl = COLON \<and> operandNode E v \<noteq> None"
  shows "parseHashLiteral_loop (length prs + 1 + j) (parseExpression (Suc (Suc m)) E) E acc
           (stream_at E (separatedPairs cm prs @ rb # rest) ln col)
         = Done (acc + mset (pairNodes E prs)) (stream_at E (rb # rest) ln col)"
  using prs
proof (induction prs arbitrary: acc)
  case Nil
  then show ?case
    using rb by (simp add: separatedPairs_def pairNodes_def)
next
  case (Cons e prs)
  obtain k cl v c where e: "e = (k, cl, v, c)" by (cases e)
  have k: "operandNode E k \<noteq> None" and cl: "Type cl = COLON" and v: "operandNode E v \<noteq> None"
    using Cons.prems e by simp_all
  have prs: "\<forall>(k, cl, v, c) \<in> set prs.
                operandNode E k \<noteq> None \<and> Type cl = COLON \<and> operandNode E v \<noteq> None"
    using Cons.prems by simp
  have prs': "\<forall>(k, cl, v, c) \<in> set prs. operandNode E k \<noteq> None"
    using prs by fastforce
  obtain h tl where more: "separatedPairs cm prs @ rb # rest = h # tl"
    and h: "operandNode E h \<noteq> None \<or> h = rb"
    using separatedPairs_head [OF prs'] by blast
  have hstop: "infixFns (parser_at E a h lx) (Type h) = None" for a lx
    using h rb by (auto simp: infixFns_at_operand [OF E] infixFns_at_plain [OF E])
  have hc: "Type h \<noteq> COMMA"
    using h rb operand_not_keyword [of E h] by auto
  have IH: "parseHashLiteral_loop (length prs + 1 + j) (parseExpression (Suc (Suc m)) E) E acc'
           (stream_at E (h # tl) ln col)
         = Done (acc' + mset (pairNodes E prs)) (stream_at E (rb # rest) ln col)" for acc'
    unfolding more [symmetric] by (rule Cons.IH [OF prs])
  have fuel: "length (e # prs) + 1 + j = Suc (length prs + 1 + j)"
    by simp
  show ?case
  proof (cases c)
    case True
    then have s: "separatedPairs cm (e # prs) @ rb # rest = k # cl # v # cm # h # tl"
      using e more by (simp add: separatedPairs_Cons)
    show ?thesis
      unfolding fuel s
      using k v cl cm operand_not_keyword [OF k] IH
      by (simp add: nextToken_stream infixFns_at_plain [OF E] pairNodes_def e
          parseExpression_operand_stream [OF k E] parseExpression_operand_stream [OF v E]
          whenDo_def currentTokenTypeIs_def
          assertNextTokenType_def assertTokenType_def
          del: parseExpression.simps stream_at.simps)
  next
    case False
    then have s: "separatedPairs cm (e # prs) @ rb # rest = k # cl # v # h # tl"
      using e more by (simp add: separatedPairs_Cons)
    show ?thesis
      unfolding fuel s
      using k v cl hc operand_not_keyword [OF k] IH
      by (simp add: nextToken_stream infixFns_at_plain [OF E] pairNodes_def e
          parseExpression_operand_stream [OF k E] parseExpression_operand_stream [OF v E hstop]
          whenDo_def currentTokenTypeIs_def
          assertNextTokenType_def assertTokenType_def
          del: parseExpression.simps stream_at.simps)
  qed
qed

lemma hash_any:
  assumes E: "plainTables E" and lb: "Type lb = LBRACE" and rb: "Type rb = RBRACE"
    and cm: "Type cm = COMMA"
    and prs: "\<forall>(k, cl, v, c) \<in> set prs.
                operandNode E k \<noteq> None \<and> Type cl = COLON \<and> operandNode E v \<noteq> None"
    and fuel: "length prs + 1 \<le> Suc (Suc m)"
  shows "ParseProgram (Suc (Suc (Suc m))) E
           (parser_New E (lexer_of (lb # separatedPairs cm prs @ [rb]) ln col))
         = expressionProgram lb (HashLiteral lb (mset (pairNodes E prs)))"
proof -
  have prs': "\<forall>(k, cl, v, c) \<in> set prs. operandNode E k \<noteq> None"
    using prs by fastforce
  obtain h tl where more: "separatedPairs cm prs @ [rb] = h # tl"
    using separatedPairs_head [OF prs', of cm rb "[]"] by blast
  have pk: "Type (peekToken (stream_at E (h # tl) ln col)) \<noteq> RBRACE"
  proof (cases prs)
    case Nil
    then show ?thesis using more by (auto simp: separatedPairs_def)
  next
    case (Cons e prs')
    obtain k cl v c where e: "e = (k, cl, v, c)" by (cases e)
    have "Type cl = COLON" using prs Cons e by simp
    then show ?thesis
      using more Cons e by (cases c) (auto simp: separatedPairs_Cons)
  qed
  obtain j where j: "Suc (Suc m) = length prs + 1 + j"
    using fuel le_Suc_ex by blast
  have loop: "parseHashLiteral_loop (Suc (Suc m)) (parseExpression (Suc (Suc m)) E) E {#}
           (stream_at E (h # tl) ln col)
         = Done (mset (pairNodes E prs)) (stream_at E [rb] ln col)"
    using hash_loop [OF E cm rb prs, of j m "{#}" "[]" ln col]
    by (simp only: more j [symmetric] add.left_neutral)
  have hsh: "parseHashLiteral (Suc (Suc m)) (parseExpression (Suc (Suc m)) E) E
                (parser_at E lb h (lexer_of tl ln col))
              = Done (HashLiteral lb (mset (pairNodes E prs)))
                  (parser_at E rb (eof_at ln col) (lexer_of [] ln col))"
  proof -
    have st: "parser_at E lb h (lexer_of tl ln col) = stream_at E (lb # h # tl) ln col"
      by simp
    show ?thesis
      unfolding st parseHashLiteral_def assertCurrentTokenType_def assertTokenType_def Let_def
      using lb rb pk
      by (simp add: nextToken_stream loop peekTokenTypeIs_def
          del: stream_at.simps(1) parseExpression.simps parseHashLiteral_loop.simps
            peekToken_stream)
  qed
  show ?thesis
    unfolding more
    using E lb
    by (simp add: exec_core hsh
        del: parseExpression.simps parseExpression_loop.simps)
qed


text \<open>
  Claim C9, amended. A parsed hash literal holds its pairs in a map keyed by the key
  nodes. For a literal of any number of pairs, keys and values identifiers or integer
  literals: the node holds exactly the pairs written, once each, as a multiset; a
  sequence is a possible order of a \<open>range\<close> over it exactly when it is a rearrangement
  of these pairs, the reverse of the written order for one; the order in which the pairs
  were written is not stored. Fuel of the number of pairs plus 3 gives the result.
\<close>

theorem hash_literal_holds_pairs_unordered:
  assumes "plainTables E" and "Type lb = LBRACE" and "Type rb = RBRACE" and "Type cm = COMMA"
    and "\<forall>(k, cl, v, c) \<in> set prs.
           operandNode E k \<noteq> None \<and> Type cl = COLON \<and> operandNode E v \<noteq> None"
    and "length prs + 3 \<le> n"
  shows "ParseProgram n E (parser_New E (lexer_of (lb # separatedPairs cm prs @ [rb]) ln col))
           = expressionProgram lb (HashLiteral lb (mset (pairNodes E prs)))
       \<and> rangeOrder (mset (pairNodes E prs)) xs = (mset xs = mset (pairNodes E prs))
       \<and> rangeOrder (mset (pairNodes E prs)) (rev (pairNodes E prs))"
proof -
  define m where "m = n - 3"
  have n: "n = Suc (Suc (Suc m))" and fuel: "length prs + 1 \<le> Suc (Suc m)"
    using assms(6) by (simp_all add: m_def)
  show ?thesis
    unfolding n
    using hash_any [OF assms(1-5) fuel]
    by (simp add: rangeOrder_def)
qed

theorem hash_literal_holds_pairs_unordered_witness:
  "plainTables sample_Deps
   \<and> ParseProgram 5 sample_Deps (parser_New sample_Deps
      (lexer_of [tk LBRACE ''{'' 1 1, tk IDENT ''a'' 1 2, tk COLON '':'' 1 3, tk INT_T ''1'' 1 5,
                 tk COMMA '','' 1 6, tk IDENT ''b'' 1 8, tk COLON '':'' 1 9, tk INT_T ''2'' 1 11,
                 tk RBRACE ''}'' 1 12] 1 13))
     = expressionProgram (tk LBRACE ''{'' 1 1)
         (HashLiteral (tk LBRACE ''{'' 1 1)
            {#(IdentifierExpr (Identifier (tk IDENT ''a'' 1 2) ''a''), Integer (tk INT_T ''1'' 1 5) 1),
              (IdentifierExpr (Identifier (tk IDENT ''b'' 1 8) ''b''), Integer (tk INT_T ''2'' 1 11) 2)#})
   \<and> rangeOrder
        {#(IdentifierExpr (Identifier (tk IDENT ''a'' 1 2) ''a''), Integer (tk INT_T ''1'' 1 5) 1),
          (IdentifierExpr (Identifier (tk IDENT ''b'' 1 8) ''b''), Integer (tk INT_T ''2'' 1 11) 2)#}
        [(IdentifierExpr (Identifier (tk IDENT ''b'' 1 8) ''b''), Integer (tk INT_T ''2'' 1 11) 2),
         (IdentifierExpr (Identifier (tk IDENT ''a'' 1 2) ''a''), Integer (tk INT_T ''1'' 1 5) 1)]"
proof -
  have t: "plainTables sample_Deps"
    by (rule plainTables_sample)
  have "ParseProgram 5 sample_Deps (parser_New sample_Deps
      (lexer_of (tk LBRACE ''{'' 1 1
         # separatedPairs (tk COMMA '','' 1 6)
             [(tk IDENT ''a'' 1 2, tk COLON '':'' 1 3, tk INT_T ''1'' 1 5, True),
              (tk IDENT ''b'' 1 8, tk COLON '':'' 1 9, tk INT_T ''2'' 1 11, False)]
         @ [tk RBRACE ''}'' 1 12]) 1 13))
     = expressionProgram (tk LBRACE ''{'' 1 1)
         (HashLiteral (tk LBRACE ''{'' 1 1)
            (mset (pairNodes sample_Deps
              [(tk IDENT ''a'' 1 2, tk COLON '':'' 1 3, tk INT_T ''1'' 1 5, True),
               (tk IDENT ''b'' 1 8, tk COLON '':'' 1 9, tk INT_T ''2'' 1 11, False)])))
     \<and> rangeOrder (mset (pairNodes sample_Deps
              [(tk IDENT ''a'' 1 2, tk COLON '':'' 1 3, tk INT_T ''1'' 1 5, True),
               (tk IDENT ''b'' 1 8, tk COLON '':'' 1 9, tk INT_T ''2'' 1 11, False)])) []
        = (mset [] = mset (pairNodes sample_Deps
              [(tk IDENT ''a'' 1 2, tk COLON '':'' 1 3, tk INT_T ''1'' 1 5, True),
               (tk IDENT ''b'' 1 8, tk COLON '':'' 1 9, tk INT_T ''2'' 1 11, False)]))
     \<and> rangeOrder (mset (pairNodes sample_Deps
              [(tk IDENT ''a'' 1 2, tk COLON '':'' 1 3, tk INT_T ''1'' 1 5, True),
               (tk IDENT ''b'' 1 8, tk COLON '':'' 1 9, tk INT_T ''2'' 1 11, False)]))
          (rev (pairNodes sample_Deps
              [(tk IDENT ''a'' 1 2, tk COLON '':'' 1 3, tk INT_T ''1'' 1 5, True),
               (tk IDENT ''b'' 1 8, tk COLON '':'' 1 9, tk INT_T ''2'' 1 11, False)]))"
    by (rule hash_literal_holds_pairs_unordered [OF t])
       (simp_all add: operandNode_def sample_defs)
  then show ?thesis
    using t
    by (simp add: separatedPairs_def pairNodes_def operandNode_def sample_defs)
qed

subsection \<open>Faults\<close>

text \<open>
  No panic of the parser carries a \<open>ParserError\<close> whose \<open>pos\<close> is set: whatever
  the input, the error that \<open>ParseProgram\<close> returns has the zero position, and its
  message ends in \<open>line: 0, column: 0\<close>.
\<close>

lemma zeroPos_simps [simp]:
  "zeroPos (Done a p)" "zeroPos OutOfFuel" "zeroPos (Panic (StringValue s))"
  "zeroPos (Panic (ParserErrorValue e)) = (pos e = zeroPosition)"
  by (simp_all add: zeroPos_def)

lemma zeroPos_andThen:
  assumes "zeroPos m" and "\<And>a p. zeroPos (f a p)"
  shows "zeroPos (andThen m f)"
  using assms by (cases m) (auto simp: zeroPos_def split: panic_value.splits)

lemma zeroPos_nextToken: "zeroPos (nextToken p)"
  by (simp add: nextToken_def handler_def split: LexStep.splits)

lemma zeroPos_whenDo: "(\<And>p. zeroPos (m p)) \<Longrightarrow> zeroPos (whenDo c m p)"
  by (simp add: whenDo_def zeroPos_andThen)

lemma zeroPos_assertTokenType: "zeroPos (assertTokenType E expect actual p)"
  by (simp add: assertTokenType_def expectedGot_def zeroPos_andThen zeroPos_nextToken)

lemma zeroPos_asserts:
  "zeroPos (assertNextTokenType E expect p)" "zeroPos (assertCurrentTokenType E expect p)"
  by (simp_all add: assertNextTokenType_def assertCurrentTokenType_def zeroPos_assertTokenType)

lemmas zeroPos_intros =
  zeroPos_andThen zeroPos_nextToken zeroPos_whenDo zeroPos_asserts

lemma zeroPos_leaves:
  "zeroPos (parseIdentifier p)" "zeroPos (parseInteger E p)" "zeroPos (parseBoolean E p)"
  "zeroPos (parseString p)" "zeroPos (parsePostfix left p)"
  by (simp_all add: parseIdentifier_def parseInteger_def parseBoolean_def parseString_def
      parsePostfix_def split: option.splits)

lemma zeroPos_parseParameters_loop: "zeroPos (parseParameters_loop n params p)"
  by (induction n arbitrary: params p) (auto intro!: zeroPos_intros simp: Let_def)

lemma zeroPos_parseParameters: "zeroPos (parseParameters n E p)"
  by (auto simp: parseParameters_def expectedGot_def
      intro!: zeroPos_intros zeroPos_parseParameters_loop)

lemma zeroPos_statements:
  assumes pe: "\<And>prec p. zeroPos (pe prec p)"
  shows "zeroPos (parseLetStatement pe E p)" "zeroPos (parseReturnStatement pe E p)"
    "zeroPos (parseExpressionStatement pe E p)"
  by (auto simp: parseLetStatement_def parseReturnStatement_def parseExpressionStatement_def
      Let_def intro!: zeroPos_intros pe)

lemma zeroPos_parseStatement:
  assumes pe: "\<And>prec p. zeroPos (pe prec p)"
  shows "zeroPos (parseStatement pe E p)"
  by (simp add: parseStatement_def zeroPos_statements [OF pe])

lemma zeroPos_simple:
  assumes pe: "\<And>prec p. zeroPos (pe prec p)"
  shows "zeroPos (parsePrefix pe E p)" "zeroPos (parseInfix pe E left p)"
    "zeroPos (parseGroupedExpression pe E p)" "zeroPos (parseIndexExpression pe E left p)"
  by (auto simp: parsePrefix_def parseInfix_def parseGroupedExpression_def
      parseIndexExpression_def Let_def intro!: zeroPos_intros pe)

lemma zeroPos_parseBlockExpression_loop:
  assumes pe: "\<And>prec p. zeroPos (pe prec p)"
  shows "zeroPos (parseBlockExpression_loop n pe E statements p)"
  by (induction n arbitrary: statements p)
     (auto intro!: zeroPos_intros zeroPos_parseStatement pe)

lemma zeroPos_parseBlockExpression:
  assumes pe: "\<And>prec p. zeroPos (pe prec p)"
  shows "zeroPos (parseBlockExpression n pe E p)"
  by (auto simp: parseBlockExpression_def Let_def expectedGot_def
      intro!: zeroPos_intros zeroPos_parseBlockExpression_loop pe)

lemma zeroPos_parseIfExpression:
  assumes pe: "\<And>prec p. zeroPos (pe prec p)"
  shows "zeroPos (parseIfExpression n pe E p)"
  by (auto simp: parseIfExpression_def Let_def expectedGot_def
      intro!: zeroPos_intros zeroPos_parseBlockExpression pe)

lemma zeroPos_parseFunction:
  assumes pe: "\<And>prec p. zeroPos (pe prec p)"
  shows "zeroPos (parseFunction n pe E p)"
  by (auto simp: parseFunction_def Let_def
      intro!: zeroPos_intros zeroPos_parseBlockExpression zeroPos_parseParameters pe)

lemma zeroPos_parseArrayLiteral_loop:
  assumes pe: "\<And>prec p. zeroPos (pe prec p)"
  shows "zeroPos (parseArrayLiteral_loop n pe E elements p)"
  by (induction n arbitrary: elements p) (auto intro!: zeroPos_intros pe)

lemma zeroPos_parseArrayLiteral:
  assumes pe: "\<And>prec p. zeroPos (pe prec p)"
  shows "zeroPos (parseArrayLiteral n pe E p)"
  by (auto simp: parseArrayLiteral_def Let_def expectedGot_def
      intro!: zeroPos_intros zeroPos_parseArrayLiteral_loop pe)

lemma zeroPos_parseHashLiteral_loop:
  assumes pe: "\<And>prec p. zeroPos (pe prec p)"
  shows "zeroPos (parseHashLiteral_loop n pe E pair p)"
  by (induction n arbitrary: pair p) (auto intro!: zeroPos_intros pe)

lemma zeroPos_parseHashLiteral:
  assumes pe: "\<And>prec p. zeroPos (pe prec p)"
  shows "zeroPos (parseHashLiteral n pe E p)"
  by (auto simp: parseHashLiteral_def Let_def expectedGot_def
      intro!: zeroPos_intros zeroPos_parseHashLiteral_loop pe)

lemma zeroPos_parseCallExpression_loop:
  assumes pe: "\<And>prec p. zeroPos (pe prec p)"
  shows "zeroPos (parseCallExpression_loop n pe E args p)"
  by (induction n arbitrary: args p) (auto intro!: zeroPos_intros pe)

lemma zeroPos_parseCallExpression:
  assumes pe: "\<And>prec p. zeroPos (pe prec p)"
  shows "zeroPos (parseCallExpression n pe E fn p)"
  by (auto simp: parseCallExpression_def Let_def
      intro!: zeroPos_intros zeroPos_parseCallExpression_loop pe)

lemma zeroPos_parseExpression_loop:
  assumes pe: "\<And>prec p. zeroPos (pe prec p)"
  shows "zeroPos (parseExpression_loop n pe E prec left p)"
  by (induction n arbitrary: left p)
     (auto intro!: zeroPos_intros zeroPos_parseCallExpression zeroPos_simple zeroPos_leaves pe
        split: option.splits infixParseFn.splits)

lemma zeroPos_parseExpression: "zeroPos (parseExpression n E prec p)"
proof (induction n arbitrary: prec p)
  case 0
  show ?case by simp
next
  case (Suc n)
  show ?case
    by (auto intro!: zeroPos_intros zeroPos_leaves zeroPos_parseIfExpression
        zeroPos_parseFunction zeroPos_parseArrayLiteral zeroPos_parseHashLiteral
        zeroPos_simple zeroPos_parseExpression_loop Suc
        split: option.splits prefixParseFn.splits)
qed

lemma zeroPos_ParseProgram_loop:
  "zeroPos (ParseProgram_loop n (parseExpression m E) E statements p)"
  by (induction n arbitrary: statements p)
     (auto intro!: zeroPos_intros zeroPos_parseStatement zeroPos_parseExpression)

lemma zeroPos_ParseProgram_body: "zeroPos (ParseProgram_body n E p)"
  by (auto simp: ParseProgram_body_def intro!: zeroPos_intros zeroPos_ParseProgram_loop)

lemma ParseProgram_error_pos:
  assumes "ParseProgram n E p = Returns program (Some e)"
  shows "pos e = zeroPosition"
    and "Error e = msg e @ '' at line: 0, column: 0''"
proof -
  show z: "pos e = zeroPosition"
    using assms zeroPos_ParseProgram_body [of n E p]
    by (auto simp: ParseProgram_def split: outcome.splits panic_value.splits)
  show "Error e = msg e @ '' at line: 0, column: 0''"
    by (simp add: Error_def z zeroPosition_def fmt_d_def) (subst digits.simps, simp)+
qed

text \<open>
  Claim C6. The parse of \<open>let x 5\<close> fails at the token \<open>5\<close>, at line 1, column 7,
  where \<open>=\<close> is required. \<open>ParseProgram\<close> returns no program and the
  \<open>ParserError\<close> of that token, but the message that \<open>Error\<close> makes of it ends in
  \<open>line: 0, column: 0\<close>: no panic of the parser sets the field \<open>pos\<close> that
  \<open>Error\<close> prints.
\<close>

theorem ParserError_reports_line_0_column_0:
  "ParseProgram (Suc n) E
      (parser_New E (lexer_of [tk LET ''let'' 1 1, tk IDENT ''x'' 1 5, tk INT_T ''5'' 1 7] 1 8))
     = Returns None (Some
         \<lparr>errorToken = tk INT_T ''5'' 1 7,
          msg = ''expectd token type is '' @ QuoteTokenType E ASSIGN
                @ '', got '' @ QuoteTokenType E INT_T,
          pos = \<lparr>Line = 0, Column = 0\<rparr>\<rparr>)
   \<and> Error \<lparr>errorToken = tk INT_T ''5'' 1 7,
          msg = ''expectd token type is '' @ QuoteTokenType E ASSIGN
                @ '', got '' @ QuoteTokenType E INT_T,
          pos = \<lparr>Line = 0, Column = 0\<rparr>\<rparr>
      = ''expectd token type is '' @ QuoteTokenType E ASSIGN @ '', got '' @ QuoteTokenType E INT_T
          @ '' at line: 0, column: 0''
   \<and> Pos (tk INT_T ''5'' 1 7) = \<lparr>Line = 1, Column = 7\<rparr>"
  by (simp add: exec expectedGot_def zeroPosition_def tk_def Error_def fmt_d_0)

text \<open>
  Claim C7. When the first call of the lexer reports malformed input, the handler panics
  with a string; the deferred function of \<open>ParseProgram\<close> recovers it and asserts that
  it is an \<open>error\<close>, which a string is not: \<open>ParseProgram\<close> does not return an
  error, it panics. This holds for any fuel, any tables and any rest of the input.
\<close>

theorem lexer_fault_escapes_ParseProgram:
  "ParseProgram n E (parser_New E \<lparr>pending = Malformed ps m # rest, endPos = ep\<rparr>)
     = PanicsWith (m @ '' at line: '' @ fmt_d (Line ps) @ '', column: '' @ fmt_d (Column ps))"
  by (simp add: ParseProgram_def ParseProgram_body_def parser_New_def nextToken_def NextToken_def
      handler_def)

end
